theory Spec2Isabelle
  imports Complex_Main "HOL-Library.List_Lexorder" "HOL-Library.Char_ord"
begin

section \<open>Load balancer analytics: the dashboard engine and the warehouse writer\<close>

text \<open>
  The development embeds two classes of the repository:
  \<^item> \<open>DashboardEngine\<close> (dashboard_engine.py): the KPI, traffic-pattern and anomaly
    computations over the two loaded data frames;
  \<^item> \<open>SQLDataWarehouse\<close> (sql_injector.py): the batched, retrying insert and the
    storage of a report.

  Numbers. A float of the source is a \<open>real\<close>: the exact value of the binary64
  number. Float operations come in three kinds.
  \<^item> Single operations (the division of the request rate, the products and quotients
    inside the roundings, the percentage of an error rate) are rounded to binary64 by
    \<open>fl\<close>. Overflow and subnormal numbers are not modelled.
  \<^item> Sums over a float column are computed by numpy and pandas in an order the source
    does not fix. They are the two parameters of the model, a \<open>float_lib\<close>.
  \<^item> The statistics of an integer column that the properties below are about (mean,
    standard deviation and quantiles of \<open>response_time_ms\<close>) are exact reals.
  Integer columns are \<open>int64\<close> in pandas; their sums wrap around.
\<close>

subsection \<open>Binary64 rounding\<close>

text \<open>Rounding to the nearest integer, ties to the even neighbour.\<close>

definition round_half_even :: "real \<Rightarrow> int" where
  "round_half_even x =
     (let f = \<lfloor>x\<rfloor>; d = x - of_int f
      in if d < 1/2 then f
         else if 1/2 < d then f + 1
         else if even f then f else f + 1)"

text \<open>The power \<open>2 ^ e\<close> for an integer exponent.\<close>

definition pow2 :: "int \<Rightarrow> real" where
  "pow2 e = (if 0 \<le> e then 2 ^ nat e else inverse (2 ^ nat (- e)))"

text \<open>The binade of a non-zero real: the \<open>e\<close> with \<open>2 ^ e \<le> \<bar>x\<bar> < 2 ^ (e + 1)\<close>.\<close>

definition binade :: "real \<Rightarrow> int" where
  "binade x = \<lfloor>log 2 \<bar>x\<bar>\<rfloor>"

text \<open>The binary64 number nearest to \<open>x\<close>, ties to even: in the binade \<open>e\<close> of \<open>x\<close>
  the numbers are the multiples of \<open>2 ^ (e - 52)\<close>.\<close>

definition fl :: "real \<Rightarrow> real" where
  "fl x = (if x = 0 then 0
           else of_int (round_half_even (x / pow2 (binade x - 52))) * pow2 (binade x - 52))"

text \<open>Rounding to \<open>nd\<close> decimals without any error, ties to even.\<close>

definition decimal_round :: "real \<Rightarrow> nat \<Rightarrow> real" where
  "decimal_round x nd = of_int (round_half_even (x * 10 ^ nd)) / 10 ^ nd"

text \<open>\<open>round(x, nd)\<close> on a Python float: the decimal rounding of the exact value of
  \<open>x\<close>, as a binary64 number.\<close>

definition py_round :: "real \<Rightarrow> nat \<Rightarrow> real" where
  "py_round x nd = fl (decimal_round x nd)"

text \<open>\<open>round(x, nd)\<close> on a numpy float and \<open>.round(nd)\<close> on a series or a frame:
  numpy scales by \<open>10 ** nd\<close>, rounds to the nearest integer and divides again, each
  step in binary64.\<close>

definition np_round :: "real \<Rightarrow> nat \<Rightarrow> real" where
  "np_round x nd = fl (of_int (round_half_even (fl (x * 10 ^ nd))) / 10 ^ nd)"

text \<open>The value an \<open>int64\<close> holds after an operation whose exact result is \<open>s\<close>.\<close>

definition int64 :: "int \<Rightarrow> int" where
  "int64 s = (s + 2 ^ 63) mod 2 ^ 64 - 2 ^ 63"

subsection \<open>Reductions of pandas\<close>

text \<open>The float reductions whose order of summation is the library's choice:
  \<open>series_sum\<close> is numpy's sum of a float array, \<open>group_mean\<close> is the mean pandas
  computes for one group of a \<open>groupby\<close>.\<close>

record float_lib =
  series_sum :: "real list \<Rightarrow> real"
  group_mean :: "real list \<Rightarrow> real"

text \<open>\<open>Series.mean()\<close> of a float column: the sum divided by the count; NaN on an empty
  series.\<close>

definition float_mean :: "float_lib \<Rightarrow> real list \<Rightarrow> real option" where
  "float_mean lib xs =
     (if xs = [] then None else Some (fl (series_sum lib xs / of_nat (length xs))))"

text \<open>The exact mean of a non-empty series, and \<open>Series.mean()\<close> of an integer column
  with it: NaN on an empty series.\<close>

definition avg :: "real list \<Rightarrow> real" where
  "avg xs = sum_list xs / of_nat (length xs)"

definition mean :: "real list \<Rightarrow> real option" where
  "mean xs = (if xs = [] then None else Some (avg xs))"

text \<open>\<open>Series.std()\<close>: pandas' default is \<open>ddof=1\<close>, the sample standard
  deviation with divisor \<open>n - 1\<close>; NaN when there are fewer than two values.\<close>

definition std :: "real list \<Rightarrow> real option" where
  "std xs =
     (if length xs < 2 then None
      else let m = avg xs
           in Some (sqrt (sum_list (map (\<lambda>x. (x - m)\<^sup>2) xs) / of_nat (length xs - 1))))"

text \<open>\<open>Series.quantile(q)\<close> with the default linear interpolation: on the sorted
  sample \<open>s\<close> of length \<open>n\<close> the virtual index is \<open>q * (n - 1)\<close>; the result
  interpolates between its two neighbours, the upper one clipped to the last index.
  NaN on an empty series.\<close>

definition quantile :: "real list \<Rightarrow> real \<Rightarrow> real option" where
  "quantile xs q =
     (if xs = [] then None
      else let s = sort xs;
               pos = q * of_nat (length s - 1);
               lo = nat \<lfloor>pos\<rfloor>;
               hi = min (lo + 1) (length s - 1);
               frac = pos - of_nat lo
           in Some (s ! lo + (s ! hi - s ! lo) * frac))"

text \<open>\<open>Series.max()\<close>: NaN on an empty series.\<close>

definition series_max :: "real list \<Rightarrow> real option" where
  "series_max xs = (if xs = [] then None else Some (Max (set xs)))"

text \<open>\<open>Series.value_counts().to_dict()\<close> and \<open>groupby(key).size().to_dict()\<close>: a
  dictionary from each value that occurs to its number of occurrences. The order of a
  dictionary's keys is not modelled; the keys are listed in increasing order.\<close>

definition value_counts :: "('a::linorder) list \<Rightarrow> ('a \<times> nat) list" where
  "value_counts xs = map (\<lambda>k. (k, count_list xs k)) (sort (remdups xs))"

text \<open>The keys of \<open>groupby(key)\<close>: pandas sorts the group keys.\<close>

definition group_keys :: "('r \<Rightarrow> 'k::linorder) \<Rightarrow> 'r list \<Rightarrow> 'k list" where
  "group_keys key rows = sort (remdups (map key rows))"

definition group_rows :: "('r \<Rightarrow> 'k) \<Rightarrow> 'r list \<Rightarrow> 'k \<Rightarrow> 'r list" where
  "group_rows key rows k = filter (\<lambda>r. key r = k) rows"

text \<open>\<open>Series.nlargest(n)\<close>: the \<open>n\<close> largest values in decreasing order, equal
  values in their order of appearance.\<close>

definition nlargest :: "nat \<Rightarrow> ('k \<times> real) list \<Rightarrow> ('k \<times> real) list" where
  "nlargest n kvs = take n (sort_key (\<lambda>(k, v). - v) kvs)"

text \<open>\<open>Series.unique()\<close>: the distinct values in their order of first appearance.\<close>

definition unique :: "'a list \<Rightarrow> 'a list" where
  "unique xs = rev (remdups (rev xs))"

text \<open>Python's \<open>max(a, b)\<close>: \<open>a\<close> unless \<open>b > a\<close>.\<close>

definition py_max :: "real \<Rightarrow> real \<Rightarrow> real" where
  "py_max a b = (if a < b then b else a)"

text \<open>\<open>Timedelta.total_seconds()\<close> of a span of \<open>ns\<close> nanoseconds: pandas adds the
  whole seconds and the microseconds divided by a million, and drops what is below a
  microsecond.\<close>

definition total_seconds :: "int \<Rightarrow> real" where
  "total_seconds ns =
     (let us = ns div 1000
      in fl (of_int (us div 1000000) + fl (of_int (us mod 1000000) / 1000000)))"

subsection \<open>The data frames and the interpreter state\<close>

text \<open>A row of the request log. \<open>timestamp\<close> is pandas' \<open>datetime64[ns]\<close>: the number
  of nanoseconds since the epoch.\<close>

record request_record =
  timestamp :: int
  server_id :: string
  region :: string
  request_method :: string
  status_code :: int
  response_time_ms :: int
  retry_rate :: real
  bytes_sent :: int

text \<open>A row of the server metrics. The prefix \<open>m_\<close> keeps the column names apart from
  those of the request log and of the KPI dictionaries.\<close>

record server_metric =
  m_timestamp :: int
  m_server_id :: string
  cpu_usage_percent :: real
  memory_usage_percent :: real
  disk_usage_percent :: real
  network_in_mbps :: real
  network_out_mbps :: real
  active_connections :: int
  m_requests_per_second :: int
  backend_health_failures :: int

text \<open>A frame is a mutable object. A request frame has its rows and the columns a
  method has added to it by assignment (\<open>df['hour'] = ...\<close>).\<close>

datatype column = IntColumn "int list" | StrColumn "string list"

datatype frame =
    RequestFrame "request_record list" "(string \<times> column) list"
  | ServerFrame "server_metric list"

text \<open>The engine object: its two attributes hold the addresses of the loaded frames,
  and are \<open>None\<close> until \<open>load_data\<close> has run.\<close>

record DashboardEngine =
  request_logs_df :: "nat option"
  server_metrics_df :: "nat option"

text \<open>The state a method of the engine runs in: the engine object and the frames that
  exist, a frame's address being its index.\<close>

record py_state =
  engine :: DashboardEngine
  frames :: "frame list"

text \<open>The exceptions of the two classes: Python's own, and \<open>DbError\<close> for whatever
  the database driver raises (connection or statement error), with its message.\<close>

datatype error = ValueError string | KeyError string | AttributeError string | DbError string

text \<open>The frame at an address. Every address the engine holds is that of a frame;
  for any other number the empty request frame stands in.\<close>

definition frame_at :: "py_state \<Rightarrow> nat \<Rightarrow> frame" where
  "frame_at s a = (if a < length (frames s) then frames s ! a else RequestFrame [] [])"

definition request_rows :: "frame \<Rightarrow> request_record list" where
  "request_rows fr = (case fr of RequestFrame rows cols \<Rightarrow> rows | ServerFrame rows \<Rightarrow> [])"

definition server_rows :: "frame \<Rightarrow> server_metric list" where
  "server_rows fr = (case fr of RequestFrame rows cols \<Rightarrow> [] | ServerFrame rows \<Rightarrow> rows)"

text \<open>\<open>df.copy()\<close>: a new frame with the same content, at a fresh address.\<close>

definition df_copy :: "nat \<Rightarrow> py_state \<Rightarrow> nat \<times> py_state" where
  "df_copy a s = (length (frames s), s\<lparr>frames := frames s @ [frame_at s a]\<rparr>)"

text \<open>\<open>df[name] = values\<close>: the frame at the address gets the column.\<close>

definition set_column :: "nat \<Rightarrow> string \<Rightarrow> column \<Rightarrow> py_state \<Rightarrow> py_state" where
  "set_column a name vals s =
     (case frame_at s a of
        RequestFrame rows cols \<Rightarrow>
          s\<lparr>frames := (frames s)[a := RequestFrame rows (cols @ [(name, vals)])]\<rparr>
      | ServerFrame rows \<Rightarrow> s)"

subsection \<open>\<open>compute_request_kpis\<close>\<close>

record request_kpis =
  total_requests :: nat
  requests_per_second :: real
  average_response_time_ms :: "real option"
  p95_response_time_ms :: "real option"
  p99_response_time_ms :: "real option"
  error_rate_percent :: real
  retry_rate_avg :: "real option"
  retry_rate_p95 :: "real option"
  total_bytes_transferred :: int
  average_bytes_per_request :: "real option"
  region_distribution :: "(string \<times> nat) list"
  method_distribution :: "(string \<times> nat) list"
  status_code_distribution :: "(int \<times> nat) list"

text \<open>\<open>(df['timestamp'].max() - df['timestamp'].min()).total_seconds()\<close>, for a frame
  with at least one row.\<close>

definition span_seconds :: "request_record list \<Rightarrow> real" where
  "span_seconds df =
     total_seconds (Max (set (map timestamp df)) - Min (set (map timestamp df)))"

text \<open>The denominator of the request rate: \<open>max(total_time_seconds, 1)\<close>.\<close>

definition total_time_seconds :: "request_record list \<Rightarrow> real" where
  "total_time_seconds df = py_max (span_seconds df) 1"

text \<open>\<open>(df['status_code'] >= 400).mean() * 100\<close>: the mean of a boolean series is the
  number of true entries divided by the length.\<close>

definition is_error :: "request_record \<Rightarrow> bool" where
  "is_error r = (400 \<le> status_code r)"

definition error_percentage :: "request_record list \<Rightarrow> real" where
  "error_percentage df =
     fl (fl (of_nat (length (filter is_error df)) / of_nat (length df)) * 100)"

definition response_times :: "request_record list \<Rightarrow> real list" where
  "response_times df = map (\<lambda>r. of_int (response_time_ms r)) df"

text \<open>The dictionary of KPIs, for a frame with at least one row.\<close>

definition request_kpis_of :: "float_lib \<Rightarrow> request_record list \<Rightarrow> request_kpis" where
  "request_kpis_of lib df =
     \<lparr> total_requests = length df,
       requests_per_second = py_round (fl (of_nat (length df) / total_time_seconds df)) 2,
       average_response_time_ms =
         map_option (\<lambda>v. np_round v 2) (mean (response_times df)),
       p95_response_time_ms =
         map_option (\<lambda>v. np_round v 2) (quantile (response_times df) (95/100)),
       p99_response_time_ms =
         map_option (\<lambda>v. np_round v 2) (quantile (response_times df) (99/100)),
       error_rate_percent = np_round (error_percentage df) 2,
       retry_rate_avg = map_option (\<lambda>v. np_round v 3) (float_mean lib (map retry_rate df)),
       retry_rate_p95 =
         map_option (\<lambda>v. np_round v 3) (quantile (map retry_rate df) (95/100)),
       total_bytes_transferred = int64 (sum_list (map bytes_sent df)),
       average_bytes_per_request =
         map_option (\<lambda>v. np_round v 2) (mean (map (\<lambda>r. of_int (bytes_sent r)) df)),
       region_distribution = value_counts (map region df),
       method_distribution = value_counts (map request_method df),
       status_code_distribution = value_counts (map status_code df) \<rparr>"

text \<open>The method. It works on a copy of the frame. A frame without rows comes from a
  file that has only its header line; its \<open>timestamp\<close> column is then not a datetime
  column, the difference of its maximum and minimum is a float, and asking that for
  \<open>total_seconds\<close> raises \<open>AttributeError\<close>.\<close>

definition compute_request_kpis ::
  "float_lib \<Rightarrow> py_state \<Rightarrow> (error + request_kpis) \<times> py_state" where
  "compute_request_kpis lib s =
     (case request_logs_df (engine s) of
        None \<Rightarrow> (Inl (ValueError ''Request logs data not loaded. Call load_data() first.''), s)
      | Some a \<Rightarrow>
          (let (c, s1) = df_copy a s; df = request_rows (frame_at s1 c)
           in if df = []
              then (Inl (AttributeError ''float object has no attribute total_seconds''), s1)
              else (Inr (request_kpis_of lib df), s1)))"

subsection \<open>\<open>compute_server_kpis\<close>\<close>

record server_util_row =
  util_cpu_usage_percent :: real
  util_memory_usage_percent :: real
  util_requests_per_second :: real

record server_kpis =
  average_cpu_usage :: "real option"
  max_cpu_usage :: "real option"
  average_memory_usage :: "real option"
  max_memory_usage :: "real option"
  total_active_connections :: int
  average_requests_per_second :: "real option"
  backend_health_failures_total :: int
  backend_health_failures_by_server :: "(string \<times> int) list"
  total_network_in_gb :: real
  total_network_out_gb :: real
  high_cpu_servers :: "string list"
  high_memory_servers :: "string list"
  server_utilization :: "(string \<times> server_util_row) list"

text \<open>\<open>df.groupby("server_id").agg({... "mean"}).round(2)\<close>: one row for each server,
  the means of its samples, each rounded to two decimals.\<close>

definition server_util_row_of :: "float_lib \<Rightarrow> server_metric list \<Rightarrow> string \<Rightarrow> server_util_row" where
  "server_util_row_of lib df sid =
     (let g = group_rows m_server_id df sid in
      \<lparr> util_cpu_usage_percent = np_round (group_mean lib (map cpu_usage_percent g)) 2,
        util_memory_usage_percent = np_round (group_mean lib (map memory_usage_percent g)) 2,
        util_requests_per_second =
          np_round (group_mean lib (map (\<lambda>r. of_int (m_requests_per_second r)) g)) 2 \<rparr>)"

definition server_util :: "float_lib \<Rightarrow> server_metric list \<Rightarrow> (string \<times> server_util_row) list" where
  "server_util lib df =
     map (\<lambda>sid. (sid, server_util_row_of lib df sid)) (group_keys m_server_id df)"

text \<open>The network totals: \<open>(sum * 3600) / (8 * 1024)\<close>.\<close>

definition network_gb :: "float_lib \<Rightarrow> real list \<Rightarrow> real" where
  "network_gb lib xs = fl (fl (series_sum lib xs * 3600) / (8 * 1024))"

definition server_kpis_of :: "float_lib \<Rightarrow> server_metric list \<Rightarrow> server_kpis" where
  "server_kpis_of lib df =
     \<lparr> average_cpu_usage =
         map_option (\<lambda>v. np_round v 2) (float_mean lib (map cpu_usage_percent df)),
       max_cpu_usage = map_option (\<lambda>v. np_round v 2) (series_max (map cpu_usage_percent df)),
       average_memory_usage =
         map_option (\<lambda>v. np_round v 2) (float_mean lib (map memory_usage_percent df)),
       max_memory_usage =
         map_option (\<lambda>v. np_round v 2) (series_max (map memory_usage_percent df)),
       total_active_connections = int64 (sum_list (map active_connections df)),
       average_requests_per_second =
         map_option (\<lambda>v. np_round v 2)
           (mean (map (\<lambda>r. of_int (m_requests_per_second r)) df)),
       backend_health_failures_total = int64 (sum_list (map backend_health_failures df)),
       backend_health_failures_by_server =
         map (\<lambda>sid. (sid, int64 (sum_list (map backend_health_failures
                                             (group_rows m_server_id df sid)))))
             (group_keys m_server_id df),
       total_network_in_gb = np_round (network_gb lib (map network_in_mbps df)) 2,
       total_network_out_gb = np_round (network_gb lib (map network_out_mbps df)) 2,
       high_cpu_servers =
         map fst (filter (\<lambda>(sid, u). 80 < util_cpu_usage_percent u) (server_util lib df)),
       high_memory_servers =
         map fst (filter (\<lambda>(sid, u). 80 < util_memory_usage_percent u) (server_util lib df)),
       server_utilization = server_util lib df \<rparr>"

definition compute_server_kpis ::
  "float_lib \<Rightarrow> py_state \<Rightarrow> (error + server_kpis) \<times> py_state" where
  "compute_server_kpis lib s =
     (case server_metrics_df (engine s) of
        None \<Rightarrow>
          (Inl (ValueError ''Server metrics data not loaded. Call load_data() first.''), s)
      | Some a \<Rightarrow>
          (let (c, s1) = df_copy a s
           in (Inr (server_kpis_of lib (server_rows (frame_at s1 c))), s1)))"

subsection \<open>\<open>compute_traffic_patterns\<close>\<close>

text \<open>\<open>timestamp.dt.hour\<close> and \<open>timestamp.dt.day_name()\<close> of a naive timestamp in
  nanoseconds; 1 January 1970 was a Thursday.\<close>

definition hour :: "request_record \<Rightarrow> int" where
  "hour r = (timestamp r div 3600000000000) mod 24"

definition day_of_week :: "request_record \<Rightarrow> string" where
  "day_of_week r =
     [''Thursday'', ''Friday'', ''Saturday'', ''Sunday'', ''Monday'', ''Tuesday'', ''Wednesday'']
       ! nat ((timestamp r div 86400000000000) mod 7)"

record traffic_patterns =
  hourly_traffic_volume :: "(int \<times> nat) list"
  daily_traffic_volume :: "(string \<times> nat) list"
  hourly_avg_latency :: "(int \<times> real) list"
  top_latency_hours :: "(int \<times> real) list"

text \<open>The mean latency of each hour bucket, in increasing order of the hour.\<close>

definition hourly_latency :: "float_lib \<Rightarrow> request_record list \<Rightarrow> (int \<times> real) list" where
  "hourly_latency lib df =
     map (\<lambda>h. (h, group_mean lib (response_times (group_rows hour df h)))) (group_keys hour df)"

definition traffic_patterns_of :: "float_lib \<Rightarrow> request_record list \<Rightarrow> traffic_patterns" where
  "traffic_patterns_of lib df =
     \<lparr> hourly_traffic_volume = value_counts (map hour df),
       daily_traffic_volume = value_counts (map day_of_week df),
       hourly_avg_latency = map (\<lambda>(h, v). (h, np_round v 2)) (hourly_latency lib df),
       top_latency_hours =
         map (\<lambda>(h, v). (h, np_round v 2)) (nlargest 5 (hourly_latency lib df)) \<rparr>"

text \<open>The method adds the columns \<open>hour\<close> and \<open>day_of_week\<close> to its copy of the frame.
  On a frame without rows the \<open>.dt\<close> accessor raises \<open>AttributeError\<close>.\<close>

definition compute_traffic_patterns ::
  "float_lib \<Rightarrow> py_state \<Rightarrow> (error + traffic_patterns) \<times> py_state" where
  "compute_traffic_patterns lib s =
     (case request_logs_df (engine s) of
        None \<Rightarrow> (Inl (ValueError ''Request logs data not loaded. Call load_data() first.''), s)
      | Some a \<Rightarrow>
          (let (c, s1) = df_copy a s; df = request_rows (frame_at s1 c)
           in if df = []
              then (Inl (AttributeError ''Can only use .dt accessor with datetimelike values''), s1)
              else (let s2 = set_column c ''hour'' (IntColumn (map hour df)) s1;
                        s3 = set_column c ''day_of_week'' (StrColumn (map day_of_week df)) s2
                    in (Inr (traffic_patterns_of lib (request_rows (frame_at s3 c))), s3))))"

subsection \<open>\<open>detect_anomalies\<close>\<close>

record anomalies =
  slow_request_threshold_ms :: "real option"
  slow_request_count :: nat
  error_spike_hours :: "(int \<times> real) list"
  server_health_failures_above_5 :: "string list"

text \<open>\<open>threshold_rt = mean + 3 * std\<close>; NaN as soon as either operand is.\<close>

definition threshold_rt :: "request_record list \<Rightarrow> real option" where
  "threshold_rt df_req =
     (case (mean (response_times df_req), std (response_times df_req)) of
        (Some m, Some s) \<Rightarrow> Some (m + 3 * s)
      | _ \<Rightarrow> None)"

text \<open>\<open>(df_req['response_time_ms'] > threshold_rt).sum()\<close>: no value is above NaN.\<close>

definition count_above :: "real option \<Rightarrow> real list \<Rightarrow> nat" where
  "count_above t xs = (case t of None \<Rightarrow> 0 | Some v \<Rightarrow> length (filter (\<lambda>x. v < x) xs))"

text \<open>The error rate, in percent, of each hour bucket.\<close>

definition hourly_errors :: "request_record list \<Rightarrow> (int \<times> real) list" where
  "hourly_errors df_req =
     map (\<lambda>h. (h, error_percentage (group_rows hour df_req h))) (group_keys hour df_req)"

text \<open>The hours whose rate is above \<open>hourly_errors.mean() * 2\<close>, with the rate
  rounded to two decimals.\<close>

definition error_spike_hours_of :: "float_lib \<Rightarrow> request_record list \<Rightarrow> (int \<times> real) list" where
  "error_spike_hours_of lib df_req =
     (let he = hourly_errors df_req
      in case float_mean lib (map snd he) of
           None \<Rightarrow> []
         | Some m \<Rightarrow>
             map (\<lambda>(h, e). (h, np_round e 2)) (filter (\<lambda>(h, e). fl (m * 2) < e) he))"

definition anomalies_of :: "float_lib \<Rightarrow> request_record list \<Rightarrow> server_metric list \<Rightarrow> anomalies" where
  "anomalies_of lib df_req df_srv =
     \<lparr> slow_request_threshold_ms = map_option (\<lambda>v. np_round v 2) (threshold_rt df_req),
       slow_request_count = count_above (threshold_rt df_req) (response_times df_req),
       error_spike_hours = error_spike_hours_of lib df_req,
       server_health_failures_above_5 =
         unique (map m_server_id (filter (\<lambda>r. 5 < backend_health_failures r) df_srv)) \<rparr>"

text \<open>The method copies both frames. On a request frame without rows the grouping by
  \<open>timestamp.dt.hour\<close> raises \<open>AttributeError\<close>.\<close>

definition detect_anomalies ::
  "float_lib \<Rightarrow> py_state \<Rightarrow> (error + anomalies) \<times> py_state" where
  "detect_anomalies lib s =
     (case (request_logs_df (engine s), server_metrics_df (engine s)) of
        (Some a, Some b) \<Rightarrow>
          (let (c, s1) = df_copy a s; (d, s2) = df_copy b s1;
               df_req = request_rows (frame_at s2 c); df_srv = server_rows (frame_at s2 d)
           in if df_req = []
              then (Inl (AttributeError ''Can only use .dt accessor with datetimelike values''), s2)
              else (Inr (anomalies_of lib df_req df_srv), s2))
      | _ \<Rightarrow> (Inl (ValueError ''Both request logs and server metrics data must be loaded''), s))"

subsection \<open>\<open>generate_comprehensive_report\<close>\<close>

record time_range =
  range_start :: int
  range_end :: int

record report_metadata =
  generated_at :: int
  request_log_entries :: nat
  server_metric_entries :: nat
  report_time_range :: time_range

record report =
  metadata :: report_metadata
  report_request_kpis :: request_kpis
  report_server_kpis :: server_kpis
  report_traffic_patterns :: traffic_patterns
  report_anomalies :: anomalies

text \<open>The report. \<open>now\<close> is the value \<open>datetime.now()\<close> returns during the call. The
  metadata are read from the engine's own frames; on a request frame without rows the
  minimum of the timestamps is a float, and its \<open>isoformat\<close> raises
  \<open>AttributeError\<close>. The four sub-computations are the methods above, run one after
  the other in the state the previous one left: each checks its own precondition again,
  and the first error raised aborts the assembly.\<close>

definition generate_comprehensive_report ::
  "int \<Rightarrow> float_lib \<Rightarrow> py_state \<Rightarrow> (error + report) \<times> py_state" where
  "generate_comprehensive_report now lib s =
     (case (request_logs_df (engine s), server_metrics_df (engine s)) of
        (Some a, Some b) \<Rightarrow>
          (let df_req = request_rows (frame_at s a); df_srv = server_rows (frame_at s b)
           in if df_req = []
              then (Inl (AttributeError ''float object has no attribute isoformat''), s)
              else
                (case compute_request_kpis lib s of
                   (Inl e, s1) \<Rightarrow> (Inl e, s1)
                 | (Inr rk, s1) \<Rightarrow>
                (case compute_server_kpis lib s1 of
                   (Inl e, s2) \<Rightarrow> (Inl e, s2)
                 | (Inr sk, s2) \<Rightarrow>
                (case compute_traffic_patterns lib s2 of
                   (Inl e, s3) \<Rightarrow> (Inl e, s3)
                 | (Inr tp, s3) \<Rightarrow>
                (case detect_anomalies lib s3 of
                   (Inl e, s4) \<Rightarrow> (Inl e, s4)
                 | (Inr an, s4) \<Rightarrow>
                     (Inr \<lparr> metadata =
                             \<lparr> generated_at = now,
                               request_log_entries = length df_req,
                               server_metric_entries = length df_srv,
                               report_time_range =
                                 \<lparr> range_start = Min (set (map timestamp df_req)),
                                   range_end = Max (set (map timestamp df_req)) \<rparr> \<rparr>,
                           report_request_kpis = rk,
                           report_server_kpis = sk,
                           report_traffic_patterns = tp,
                           report_anomalies = an \<rparr>, s4))))))
      | _ \<Rightarrow> (Inl (ValueError ''Both request logs and server metrics data must be loaded''), s))"

subsection \<open>The warehouse: values, rows and the database\<close>

text \<open>Python values as they occur in record dictionaries and report documents.\<close>

datatype pyval =
    PNone | PBool bool | PInt int | PFloat real | PStr string
  | PList "pyval list" | PDict "(string \<times> pyval) list"

type_synonym pydict = "(string \<times> pyval) list"
type_synonym row = "pyval list"

text \<open>\<open>d[k]\<close> raises \<open>KeyError\<close> on a missing key; \<open>d.get(k, default)\<close> does not.\<close>

definition getitem :: "pydict \<Rightarrow> string \<Rightarrow> error + pyval" where
  "getitem d k = (case map_of d k of None \<Rightarrow> Inl (KeyError k) | Some v \<Rightarrow> Inr v)"

definition get_default :: "pydict \<Rightarrow> string \<Rightarrow> pyval \<Rightarrow> pyval" where
  "get_default d k dflt = (case map_of d k of None \<Rightarrow> dflt | Some v \<Rightarrow> v)"

text \<open>The subscripts of a tuple expression are evaluated from left to right; the first
  missing key raises.\<close>

fun getitems :: "pydict \<Rightarrow> string list \<Rightarrow> error + row" where
  "getitems d [] = Inr []"
| "getitems d (k # ks) =
     (case getitem d k of
        Inl e \<Rightarrow> Inl e
      | Inr v \<Rightarrow> (case getitems d ks of Inl e \<Rightarrow> Inl e | Inr vs \<Rightarrow> Inr (v # vs)))"

definition prepare_request_log_row :: "pydict \<Rightarrow> error + row" where
  "prepare_request_log_row record =
     (case getitems record [''timestamp'', ''server_id'', ''region'', ''request_method'',
                            ''status_code'', ''response_time_ms'', ''retry_rate'', ''bytes_sent''] of
        Inl e \<Rightarrow> Inl e
      | Inr vs \<Rightarrow> Inr (vs @ [get_default record ''client_ip'' (PStr []),
                              get_default record ''user_agent'' (PStr [])]))"

definition prepare_server_metrics_row :: "pydict \<Rightarrow> error + row" where
  "prepare_server_metrics_row record =
     getitems record [''timestamp'', ''server_id'', ''cpu_usage_percent'',
                      ''memory_usage_percent'', ''disk_usage_percent'', ''network_in_mbps'',
                      ''network_out_mbps'', ''active_connections'', ''requests_per_second'',
                      ''backend_health_failures'']"

text \<open>The database is outside the program. Its behaviour towards one connection is a
  \<open>fault\<close>: none, or the connection cannot be opened, or the \<open>k\<close>-th statement
  executed on it (counted from 0) is rejected, or the commit is rejected. The
  \<open>faults\<close> script of the world gives the fault of each connection opened from now on,
  in order; once the script is used up, connections work.\<close>

datatype fault = NoFault | ConnectFails string | ExecuteFails nat string | CommitFails string

datatype table = RequestLogs | ServerMetrics | AnalyticsReports

text \<open>The world of a warehouse call: the committed rows of the three tables, the fault
  script, the number of connections opened so far, and the delays \<open>time.sleep\<close> was
  called with, oldest first.\<close>

record world =
  request_logs_rows :: "row list"
  server_metrics_rows :: "row list"
  analytics_reports_rows :: "row list"
  faults :: "fault list"
  connects :: nat
  sleeps :: "nat list"

record SQLDataWarehouse =
  batch_size :: int
  retry_attempts :: int

text \<open>\<open>pyodbc.connect\<close>: takes the next fault of the script for this connection.\<close>

definition connect :: "world \<Rightarrow> fault \<times> world" where
  "connect w =
     (case faults w of
        [] \<Rightarrow> (NoFault, w\<lparr>connects := connects w + 1\<rparr>)
      | f # fs \<Rightarrow> (f, w\<lparr>faults := fs, connects := connects w + 1\<rparr>))"

text \<open>\<open>cursor.execute(insert_sql, row)\<close>: \<open>pending\<close> are the rows this connection has
  inserted and not yet committed, so its length is the number of statements so far.\<close>

definition execute :: "fault \<Rightarrow> row list \<Rightarrow> row \<Rightarrow> error + row list" where
  "execute f pending row_data =
     (case f of
        ExecuteFails k msg \<Rightarrow>
          if length pending = k then Inl (DbError msg) else Inr (pending @ [row_data])
      | _ \<Rightarrow> Inr (pending @ [row_data]))"

text \<open>\<open>conn.commit()\<close> on a connection without fault: the pending rows reach the table.\<close>

definition commit :: "table \<Rightarrow> row list \<Rightarrow> world \<Rightarrow> world" where
  "commit tbl pending w =
     (case tbl of
        RequestLogs \<Rightarrow> w\<lparr>request_logs_rows := request_logs_rows w @ pending\<rparr>
      | ServerMetrics \<Rightarrow> w\<lparr>server_metrics_rows := server_metrics_rows w @ pending\<rparr>
      | AnalyticsReports \<Rightarrow> w\<lparr>analytics_reports_rows := analytics_reports_rows w @ pending\<rparr>)"

subsection \<open>\<open>_batch_insert\<close>\<close>

text \<open>\<open>records[i:i + batch_size]\<close> for \<open>i\<close> in \<open>range(0, len(records), batch_size)\<close>,
  for a positive batch size.\<close>

function batches :: "nat \<Rightarrow> 'a list \<Rightarrow> 'a list list" where
  "batches n xs = (if n = 0 \<or> xs = [] then [] else take n xs # batches n (drop n xs))"
  by pat_completeness auto
termination
  by (relation "measure (\<lambda>(n, xs). length xs)") auto

declare batches.simps [simp del]

text \<open>The inner loop, \<open>for record in batch\<close>: prepare the row, execute the insert.\<close>

fun insert_batch :: "('r \<Rightarrow> error + row) \<Rightarrow> fault \<Rightarrow> 'r list \<Rightarrow> row list \<Rightarrow> error + row list" where
  "insert_batch row_preparer f [] pending = Inr pending"
| "insert_batch row_preparer f (record # rest) pending =
     (case row_preparer record of
        Inl e \<Rightarrow> Inl e
      | Inr row_data \<Rightarrow>
          (case execute f pending row_data of
             Inl e \<Rightarrow> Inl e
           | Inr pending' \<Rightarrow> insert_batch row_preparer f rest pending'))"

text \<open>The loop over the batches. \<open>total_inserted\<close> grows by \<open>len(batch)\<close> after each
  batch; it is a local variable of the method, so an exception leaves it as it is at
  that moment, which is why it is returned with the error too.\<close>

fun insert_batches ::
  "('r \<Rightarrow> error + row) \<Rightarrow> fault \<Rightarrow> 'r list list \<Rightarrow> row list \<Rightarrow> int \<Rightarrow> (error + row list) \<times> int" where
  "insert_batches row_preparer f [] pending total_inserted = (Inr pending, total_inserted)"
| "insert_batches row_preparer f (batch # rest) pending total_inserted =
     (case insert_batch row_preparer f batch pending of
        Inl e \<Rightarrow> (Inl e, total_inserted)
      | Inr pending' \<Rightarrow>
          insert_batches row_preparer f rest pending' (total_inserted + int (length batch)))"

text \<open>One pass through the \<open>try\<close> block: connect, insert every batch, commit. The
  result is the exception raised, if any, with the value of \<open>total_inserted\<close> and the
  world afterwards. An exception inside the \<open>with\<close> block rolls the connection back: the
  tables stay as they were. A batch size of zero makes \<open>range\<close> raise \<open>ValueError\<close>; a
  negative one gives an empty range.\<close>

definition attempt_body ::
  "SQLDataWarehouse \<Rightarrow> table \<Rightarrow> ('r \<Rightarrow> error + row) \<Rightarrow> 'r list \<Rightarrow> int \<Rightarrow> world
     \<Rightarrow> (error + unit) \<times> int \<times> world" where
  "attempt_body self tbl row_preparer records total_inserted w =
     (let (f, w1) = connect w in
      case f of
        ConnectFails msg \<Rightarrow> (Inl (DbError msg), total_inserted, w1)
      | _ \<Rightarrow>
          if batch_size self = 0
          then (Inl (ValueError ''range() arg 3 must not be zero''), total_inserted, w1)
          else
            (case insert_batches row_preparer f
                    (if batch_size self < 0 then [] else batches (nat (batch_size self)) records)
                    [] total_inserted of
               (Inl e, total') \<Rightarrow> (Inl e, total', w1)
             | (Inr pending, total') \<Rightarrow>
                 (case f of
                    CommitFails msg \<Rightarrow> (Inl (DbError msg), total', w1)
                  | _ \<Rightarrow> (Inr (), total', commit tbl pending w1))))"

text \<open>\<open>for attempt in range(self.retry_attempts)\<close>, over the list of the attempt
  numbers still to run. A successful attempt returns \<open>total_inserted\<close>; a failed one
  re-raises if it is attempt \<open>retry_attempts - 1\<close> and sleeps \<open>2 ** attempt\<close>
  otherwise. When the range is used up the method returns \<open>total_inserted\<close>.\<close>

fun retry_loop ::
  "SQLDataWarehouse \<Rightarrow> table \<Rightarrow> ('r \<Rightarrow> error + row) \<Rightarrow> 'r list \<Rightarrow> int list \<Rightarrow> int \<Rightarrow> world
     \<Rightarrow> (error + int) \<times> world" where
  "retry_loop self tbl row_preparer records [] total_inserted w = (Inr total_inserted, w)"
| "retry_loop self tbl row_preparer records (attempt # rest) total_inserted w =
     (case attempt_body self tbl row_preparer records total_inserted w of
        (Inr u, total', w') \<Rightarrow> (Inr total', w')
      | (Inl e, total', w') \<Rightarrow>
          if attempt = retry_attempts self - 1 then (Inl e, w')
          else retry_loop self tbl row_preparer records rest total'
                 (w'\<lparr>sleeps := sleeps w' @ [2 ^ nat attempt]\<rparr>))"

text \<open>\<open>range(n)\<close> for a Python integer: empty when \<open>n\<close> is zero or negative.\<close>

definition py_range :: "int \<Rightarrow> int list" where
  "py_range n = map int [0..<nat n]"

definition batch_insert ::
  "SQLDataWarehouse \<Rightarrow> table \<Rightarrow> 'r list \<Rightarrow> ('r \<Rightarrow> error + row) \<Rightarrow> world \<Rightarrow> (error + int) \<times> world" where
  "batch_insert self tbl records row_preparer w =
     retry_loop self tbl row_preparer records (py_range (retry_attempts self)) 0 w"

definition insert_request_logs ::
  "SQLDataWarehouse \<Rightarrow> pydict list \<Rightarrow> world \<Rightarrow> (error + int) \<times> world" where
  "insert_request_logs self records w =
     (if records = [] then (Inr 0, w)
      else batch_insert self RequestLogs records prepare_request_log_row w)"

definition insert_server_metrics ::
  "SQLDataWarehouse \<Rightarrow> pydict list \<Rightarrow> world \<Rightarrow> (error + int) \<times> world" where
  "insert_server_metrics self records w =
     (if records = [] then (Inr 0, w)
      else batch_insert self ServerMetrics records prepare_server_metrics_row w)"

subsection \<open>\<open>store_analytics_report\<close>\<close>

text \<open>The record count taken from the report: 0 unless the report has the key
  \<open>request_kpis\<close>; then \<open>.get('total_requests', 0)\<close> of that entry, which raises
  \<open>AttributeError\<close> when the entry is not a dictionary.\<close>

definition record_count_of :: "pydict \<Rightarrow> error + pyval" where
  "record_count_of report_data =
     (case map_of report_data ''request_kpis'' of
        None \<Rightarrow> Inr (PInt 0)
      | Some (PDict kpis) \<Rightarrow> Inr (get_default kpis ''total_requests'' (PInt 0))
      | Some other \<Rightarrow> Inl (AttributeError ''get''))"

text \<open>The whole body is inside \<open>try ... except Exception\<close>, which returns \<open>False\<close>.
  The stored row is (timestamp, report type, document, processing time, record count);
  the text that \<open>json.dumps\<close> makes of the document is not modelled, the row holds the
  document itself. \<open>now\<close> is the value of \<open>datetime.now()\<close>.\<close>

definition store_analytics_report ::
  "SQLDataWarehouse \<Rightarrow> int \<Rightarrow> pydict \<Rightarrow> string \<Rightarrow> int option \<Rightarrow> world \<Rightarrow> bool \<times> world" where
  "store_analytics_report self now report_data report_type processing_time_ms w =
     (case record_count_of report_data of
        Inl e \<Rightarrow> (False, w)
      | Inr record_count \<Rightarrow>
          (let (f, w1) = connect w in
           case f of
             ConnectFails msg \<Rightarrow> (False, w1)
           | _ \<Rightarrow>
               (case execute f []
                       [PInt now, PStr report_type, PDict report_data,
                        (case processing_time_ms of None \<Rightarrow> PNone | Some t \<Rightarrow> PInt t),
                        record_count] of
                  Inl e \<Rightarrow> (False, w1)
                | Inr pending \<Rightarrow>
                    (case f of
                       CommitFails msg \<Rightarrow> (False, w1)
                     | _ \<Rightarrow> (True, commit AnalyticsReports pending w1)))))"

subsection \<open>Example data\<close>

text \<open>Concrete rows, states and worlds at which the theorems below are instantiated.
  \<open>exact_lib\<close> sums without rounding.\<close>

definition exact_lib :: float_lib where
  "exact_lib = \<lparr> series_sum = sum_list, group_mean = avg \<rparr>"

definition example_request :: "int \<Rightarrow> int \<Rightarrow> int \<Rightarrow> request_record" where
  "example_request t code rt =
     \<lparr> timestamp = t, server_id = ''srv-01'', region = ''us-east'', request_method = ''GET'',
       status_code = code, response_time_ms = rt, retry_rate = 0, bytes_sent = 512 \<rparr>"

definition example_latencies :: "int list \<Rightarrow> request_record list" where
  "example_latencies rts = map (example_request 0 200) rts"

definition example_metric :: "string \<Rightarrow> real \<Rightarrow> real \<Rightarrow> server_metric" where
  "example_metric sid cpu mem =
     \<lparr> m_timestamp = 0, m_server_id = sid, cpu_usage_percent = cpu,
       memory_usage_percent = mem, disk_usage_percent = 50, network_in_mbps = 100,
       network_out_mbps = 80, active_connections = 10, m_requests_per_second = 20,
       backend_health_failures = 0 \<rparr>"

text \<open>The state after \<open>load_data\<close>: the two frames at the addresses 0 and 1.\<close>

definition loaded_state :: "request_record list \<Rightarrow> server_metric list \<Rightarrow> py_state" where
  "loaded_state df_req df_srv =
     \<lparr> engine = \<lparr> request_logs_df = Some 0, server_metrics_df = Some 1 \<rparr>,
       frames = [RequestFrame df_req [], ServerFrame df_srv] \<rparr>"

text \<open>The state of a new engine.\<close>

definition unloaded_state :: py_state where
  "unloaded_state = \<lparr> engine = \<lparr> request_logs_df = None, server_metrics_df = None \<rparr>, frames = [] \<rparr>"

definition example_log :: "int \<Rightarrow> pydict" where
  "example_log t =
     [(''timestamp'', PInt t), (''server_id'', PStr ''srv-01''), (''region'', PStr ''us-east''),
      (''request_method'', PStr ''GET''), (''status_code'', PInt 200),
      (''response_time_ms'', PInt 120), (''retry_rate'', PFloat 0), (''bytes_sent'', PInt 512)]"

definition example_world :: "fault list \<Rightarrow> world" where
  "example_world fs =
     \<lparr> request_logs_rows = [], server_metrics_rows = [], analytics_reports_rows = [],
       faults = fs, connects = 0, sleeps = [] \<rparr>"

subsection \<open>Notions of the specification\<close>

text \<open>The request log, or the server metrics, of the state are loaded and have the
  given rows.\<close>

definition request_logs_loaded :: "py_state \<Rightarrow> request_record list \<Rightarrow> bool" where
  "request_logs_loaded s df =
     (case request_logs_df (engine s) of
        None \<Rightarrow> False
      | Some a \<Rightarrow>
          a < length (frames s)
          \<and> (case frames s ! a of RequestFrame rows cols \<Rightarrow> rows = df | ServerFrame rows \<Rightarrow> False))"

definition server_metrics_loaded :: "py_state \<Rightarrow> server_metric list \<Rightarrow> bool" where
  "server_metrics_loaded s df =
     (case server_metrics_df (engine s) of
        None \<Rightarrow> False
      | Some a \<Rightarrow>
          a < length (frames s)
          \<and> (case frames s ! a of RequestFrame rows cols \<Rightarrow> False | ServerFrame rows \<Rightarrow> rows = df))"

text \<open>A call that started in \<open>s\<close> and ended in \<open>s'\<close> has left the engine object and
  every frame that existed as they were; it may have created frames.\<close>

definition untouched :: "py_state \<Rightarrow> py_state \<Rightarrow> bool" where
  "untouched s s' =
     (engine s' = engine s \<and> length (frames s) \<le> length (frames s')
      \<and> take (length (frames s)) (frames s') = frames s)"



text \<open>A summation that returns zero for a column of zeros, as every floating-point
  summation does.\<close>

definition sums_zeros :: "float_lib \<Rightarrow> bool" where
  "sums_zeros lib = (\<forall>n. series_sum lib (replicate n 0) = 0)"

text \<open>The fault the \<open>i\<close>-th connection from now will meet.\<close>

definition nth_fault :: "world \<Rightarrow> nat \<Rightarrow> fault" where
  "nth_fault w i = (if i < length (faults w) then faults w ! i else NoFault)"

definition next_fault :: "world \<Rightarrow> fault" where
  "next_fault w = nth_fault w 0"

text \<open>A connection with this fault lets a single statement through and commits it.\<close>

definition statement_commits :: "fault \<Rightarrow> bool" where
  "statement_commits f =
     (case f of
        NoFault \<Rightarrow> True
      | ConnectFails msg \<Rightarrow> False
      | ExecuteFails k msg \<Rightarrow> k \<noteq> 0
      | CommitFails msg \<Rightarrow> False)"

text \<open>A connection with this fault rejects a write of \<open>n\<close> statements followed by a
  commit; \<open>fault_message\<close> is the message of the error the driver raises then.\<close>

definition store_rejects :: "fault \<Rightarrow> nat \<Rightarrow> bool" where
  "store_rejects f n =
     (case f of
        NoFault \<Rightarrow> False
      | ConnectFails msg \<Rightarrow> True
      | ExecuteFails k msg \<Rightarrow> k < n
      | CommitFails msg \<Rightarrow> True)"

definition fault_message :: "fault \<Rightarrow> string" where
  "fault_message f =
     (case f of
        NoFault \<Rightarrow> []
      | ConnectFails msg \<Rightarrow> msg
      | ExecuteFails k msg \<Rightarrow> msg
      | CommitFails msg \<Rightarrow> msg)"

text \<open>The rejected statement of the fault is among the statements number \<open>lo\<close> to
  \<open>hi - 1\<close> of the connection.\<close>

definition hits :: "fault \<Rightarrow> nat \<Rightarrow> nat \<Rightarrow> bool" where
  "hits f lo hi = (case f of ExecuteFails k msg \<Rightarrow> lo \<le> k \<and> k < hi | _ \<Rightarrow> False)"

text \<open>The error with which one write attempt of these records ends on a connection
  with the given fault, if it ends with one: the attempt of the code, run in a world
  whose next connection has that fault.\<close>

definition attempt_error ::
  "SQLDataWarehouse \<Rightarrow> ('r \<Rightarrow> error + row) \<Rightarrow> 'r list \<Rightarrow> fault \<Rightarrow> error option" where
  "attempt_error self row_preparer records f =
     (case fst (attempt_body self RequestLogs row_preparer records 0
                  \<lparr> request_logs_rows = [], server_metrics_rows = [],
                    analytics_reports_rows = [], faults = [f], connects = 0, sleeps = [] \<rparr>) of
        Inl e \<Rightarrow> Some e
      | Inr u \<Rightarrow> None)"

text \<open>The report's \<open>request_kpis\<close> entry, if there is one, is a dictionary.\<close>

definition request_kpis_is_dict :: "pydict \<Rightarrow> bool" where
  "request_kpis_is_dict report_data =
     (case map_of report_data ''request_kpis'' of
        None \<Rightarrow> True
      | Some (PDict kpis) \<Rightarrow> True
      | Some other \<Rightarrow> False)"

text \<open>The record count the report row is expected to carry: \<open>total_requests\<close> of the
  report's \<open>request_kpis\<close> when that key is present, and 0 otherwise.\<close>

definition claimed_record_count :: "pydict \<Rightarrow> pyval" where
  "claimed_record_count report_data =
     (case map_of report_data ''request_kpis'' of
        Some (PDict kpis) \<Rightarrow>
          (case map_of kpis ''total_requests'' of Some v \<Rightarrow> v | None \<Rightarrow> PInt 0)
      | _ \<Rightarrow> PInt 0)"

definition report_row :: "int \<Rightarrow> pydict \<Rightarrow> string \<Rightarrow> int option \<Rightarrow> row" where
  "report_row now report_data report_type processing_time_ms =
     [PInt now, PStr report_type, PDict report_data,
      (case processing_time_ms of None \<Rightarrow> PNone | Some t \<Rightarrow> PInt t),
      claimed_record_count report_data]"

section \<open>Properties\<close>

subsection \<open>Binary64 rounding\<close>

lemma round_half_even_of_int: "round_half_even (of_int z) = z"
  by (simp add: round_half_even_def)

lemma round_half_even_lower: "x - 1/2 \<le> of_int (round_half_even x)"
  unfolding round_half_even_def Let_def by (auto split: if_splits) linarith+

lemma round_half_even_mono:
  assumes "x \<le> y" shows "round_half_even x \<le> round_half_even y"
proof (cases "\<lfloor>x\<rfloor> = \<lfloor>y\<rfloor>")
  case True
  then show ?thesis using assms unfolding round_half_even_def Let_def by auto
next
  case False
  with assms have lt: "\<lfloor>x\<rfloor> < \<lfloor>y\<rfloor>" using floor_mono [of x y] by linarith
  have "round_half_even x \<le> \<lfloor>x\<rfloor> + 1" unfolding round_half_even_def Let_def by auto
  moreover have "\<lfloor>y\<rfloor> \<le> round_half_even y" unfolding round_half_even_def Let_def by auto
  ultimately show ?thesis using lt by linarith
qed

lemma round_half_even_minus: "round_half_even (- x) = - round_half_even x"
proof (cases "x = of_int \<lfloor>x\<rfloor>")
  case True
  then obtain z where z: "x = of_int z" by blast
  have "round_half_even (of_int (- z)) = - z" by (rule round_half_even_of_int)
  then show ?thesis using z by (simp add: round_half_even_of_int)
next
  case False
  then have lt: "of_int \<lfloor>x\<rfloor> < x" using of_int_floor_le [of x] by linarith
  have "x < of_int \<lfloor>x\<rfloor> + 1" by linarith
  then have "of_int (- \<lfloor>x\<rfloor> - 1) \<le> - x" by (simp add: algebra_simps)
  moreover have "- x < of_int (- \<lfloor>x\<rfloor> - 1) + 1" using lt by simp
  ultimately have fm: "\<lfloor>- x\<rfloor> = - \<lfloor>x\<rfloor> - 1" by (rule floor_unique)
  show ?thesis
    unfolding round_half_even_def Let_def fm using lt
    by (auto simp: algebra_simps) 
qed

lemma pow2_powr: "pow2 e = 2 powr (of_int e)"
  by (simp add: pow2_def powr_real_of_int)

lemma pow2_pos: "0 < pow2 e"
  by (simp add: pow2_powr)

lemma pow2_add: "pow2 (a + b) = pow2 a * pow2 b"
  by (simp add: pow2_powr powr_add)

lemma pow2_mono: "a \<le> b \<Longrightarrow> pow2 a \<le> pow2 b"
  by (simp add: pow2_powr)

lemma pow2_nat: "pow2 (int n) = 2 ^ n"
  by (simp add: pow2_def)

lemma binade_bounds:
  assumes "x \<noteq> 0"
  shows "pow2 (binade x) \<le> \<bar>x\<bar>" and "\<bar>x\<bar> < pow2 (binade x + 1)"
proof -
  have "0 < \<bar>x\<bar>" using assms by simp
  then have "2 powr (of_int (binade x)) \<le> \<bar>x\<bar> \<and> \<bar>x\<bar> < 2 powr (of_int (binade x + 1))"
    using floor_log_eq_powr_iff [of "\<bar>x\<bar>" 2 "binade x"] by (simp add: binade_def)
  then show "pow2 (binade x) \<le> \<bar>x\<bar>" and "\<bar>x\<bar> < pow2 (binade x + 1)"
    by (simp_all add: pow2_powr)
qed

lemma binade_eq:
  assumes "pow2 e \<le> \<bar>x\<bar>" and "\<bar>x\<bar> < pow2 (e + 1)"
  shows "binade x = e"
proof -
  have "0 < \<bar>x\<bar>" using assms(1) pow2_pos [of e] by linarith
  then show ?thesis
    using floor_log_eq_powr_iff [of "\<bar>x\<bar>" 2 e] assms by (simp add: binade_def pow2_powr)
qed

lemma fl_eval:
  assumes "pow2 e \<le> \<bar>x\<bar>" and "\<bar>x\<bar> < pow2 (e + 1)"
  shows "fl x = of_int (round_half_even (x / pow2 (e - 52))) * pow2 (e - 52)"
proof -
  have "x \<noteq> 0" using assms(1) pow2_pos [of e] by auto
  then show ?thesis by (simp add: fl_def binade_eq [OF assms])
qed

lemma fl_zero: "fl 0 = 0"
  by (simp add: fl_def)

lemma binade_minus: "binade (- x) = binade x"
  by (simp add: binade_def)

lemma fl_minus: "fl (- x) = - fl x"
  by (simp add: fl_def binade_minus round_half_even_minus)

lemma scaled_bounds:
  assumes "0 < x"
  shows "2 ^ 52 \<le> x / pow2 (binade x - 52)" and "x / pow2 (binade x - 52) \<le> 2 ^ 53"
proof -
  have b: "pow2 (binade x) \<le> x" "x < pow2 (binade x + 1)"
    using binade_bounds [of x] assms by auto
  have s: "pow2 (binade x) = pow2 52 * pow2 (binade x - 52)"
    using pow2_add [of 52 "binade x - 52"] by simp
  have "53 + (binade x - 52) = binade x + 1" by simp
  then have s1: "pow2 (binade x + 1) = pow2 53 * pow2 (binade x - 52)"
    using pow2_add [of 53 "binade x - 52"] by (simp only:)
  have p52: "pow2 52 = 2 ^ 52" using pow2_nat [of 52] by simp
  have p53: "pow2 53 = 2 ^ 53" using pow2_nat [of 53] by simp
  show "2 ^ 52 \<le> x / pow2 (binade x - 52)"
    using b(1) pow2_pos [of "binade x - 52"] unfolding s p52 by (simp add: pos_le_divide_eq)
  show "x / pow2 (binade x - 52) \<le> 2 ^ 53"
    using b(2) pow2_pos [of "binade x - 52"] unfolding s1 p53 by (simp add: pos_divide_le_eq)
qed

lemma fl_bounds_pos:
  assumes "0 < x"
  shows "pow2 (binade x) \<le> fl x" and "fl x \<le> pow2 (binade x + 1)"
proof -
  let ?u = "pow2 (binade x - 52)"
  let ?m = "round_half_even (x / ?u)"
  have f: "fl x = of_int ?m * ?u" using assms by (simp add: fl_def)
  have "round_half_even (of_int (2 ^ 52)) \<le> ?m"
    using scaled_bounds(1) [OF assms] by (intro round_half_even_mono) simp
  then have lo: "2 ^ 52 \<le> ?m" by (simp only: round_half_even_of_int)
  have "?m \<le> round_half_even (of_int (2 ^ 53))"
    using scaled_bounds(2) [OF assms] by (intro round_half_even_mono) simp
  then have hi: "?m \<le> 2 ^ 53" by (simp only: round_half_even_of_int)
  have s: "pow2 (binade x) = 2 ^ 52 * ?u"
    using pow2_add [of 52 "binade x - 52"] pow2_nat [of 52] by simp
  have "53 + (binade x - 52) = binade x + 1" by simp
  then have "pow2 (binade x + 1) = pow2 53 * ?u"
    using pow2_add [of 53 "binade x - 52"] by (simp only:)
  then have s1: "pow2 (binade x + 1) = 2 ^ 53 * ?u" using pow2_nat [of 53] by simp
  have lo': "(2 ^ 52 :: real) \<le> of_int ?m" using lo by (metis of_int_le_iff of_int_numeral of_int_power)
  have hi': "of_int ?m \<le> (2 ^ 53 :: real)" using hi by (metis of_int_le_iff of_int_numeral of_int_power)
  show "pow2 (binade x) \<le> fl x"
    unfolding f s using lo' pow2_pos [of "binade x - 52"] by (intro mult_right_mono) auto
  show "fl x \<le> pow2 (binade x + 1)"
    unfolding f s1 using hi' pow2_pos [of "binade x - 52"] by (intro mult_right_mono) auto
qed

lemma fl_pos: "0 < x \<Longrightarrow> 0 < fl x"
  using fl_bounds_pos(1) [of x] pow2_pos [of "binade x"] by linarith

lemma fl_mono_pos:
  assumes "0 < x" and "x \<le> y"
  shows "fl x \<le> fl y"
proof -
  have ypos: "0 < y" using assms by linarith
  have bx: "pow2 (binade x) \<le> x" using binade_bounds(1) [of x] assms by simp
  have by1: "y < pow2 (binade y + 1)" using binade_bounds(2) [of y] ypos by simp
  have "pow2 (binade x) < pow2 (binade y + 1)" using bx by1 assms(2) by linarith
  then have "binade x < binade y + 1"
    using pow2_mono [of "binade y + 1" "binade x"] by (cases "binade x < binade y + 1") auto
  then have le: "binade x \<le> binade y" by simp
  show ?thesis
  proof (cases "binade x = binade y")
    case True
    have "x / pow2 (binade y - 52) \<le> y / pow2 (binade y - 52)"
      using assms(2) pow2_pos [of "binade y - 52"] by (simp add: divide_right_mono)
    then have "round_half_even (x / pow2 (binade y - 52)) \<le> round_half_even (y / pow2 (binade y - 52))"
      by (rule round_half_even_mono)
    then have "of_int (round_half_even (x / pow2 (binade y - 52))) * pow2 (binade y - 52)
        \<le> of_int (round_half_even (y / pow2 (binade y - 52))) * pow2 (binade y - 52)"
      using pow2_pos [of "binade y - 52"] by (intro mult_right_mono) auto
    then show ?thesis using assms ypos True by (simp add: fl_def)
  next
    case False
    with le have "binade x + 1 \<le> binade y" by simp
    then have "pow2 (binade x + 1) \<le> pow2 (binade y)" by (rule pow2_mono)
    with fl_bounds_pos(2) [OF assms(1)] fl_bounds_pos(1) [OF ypos] show ?thesis by linarith
  qed
qed

lemma fl_mono: "x \<le> y \<Longrightarrow> fl x \<le> fl y"
proof -
  assume le: "x \<le> y"
  consider "0 < x" | "x \<le> 0" "0 \<le> y" | "y < 0" by linarith
  then show ?thesis
  proof cases
    case 1
    then show ?thesis using le by (rule fl_mono_pos)
  next
    case 2
    have "fl x \<le> 0"
    proof (cases "x = 0")
      case True then show ?thesis by (simp add: fl_zero)
    next
      case False
      with 2 have "0 < - x" by simp
      then have "0 < fl (- x)" by (rule fl_pos)
      then show ?thesis by (simp add: fl_minus)
    qed
    moreover have "0 \<le> fl y"
    proof (cases "y = 0")
      case True then show ?thesis by (simp add: fl_zero)
    next
      case False
      with 2 have "0 < y" by simp
      then show ?thesis using fl_pos [of y] by simp
    qed
    ultimately show ?thesis by linarith
  next
    case 3
    then have "0 < - y" "- y \<le> - x" using le by auto
    then have "fl (- y) \<le> fl (- x)" by (rule fl_mono_pos)
    then show ?thesis by (simp add: fl_minus)
  qed
qed

lemma fl_of_nat:
  assumes "n < 2 ^ 53"
  shows "fl (of_nat n) = of_nat n"
proof (cases "n = 0")
  case True
  then show ?thesis by (simp add: fl_zero)
next
  case False
  let ?x = "of_nat n :: real"
  let ?e = "binade ?x"
  have pos: "0 < ?x" using False by simp
  have b: "pow2 ?e \<le> ?x" "?x < pow2 (?e + 1)" using binade_bounds [of ?x] pos by auto
  have "?x < pow2 53" using assms pow2_nat [of 53]
    by (metis of_nat_less_iff of_nat_numeral of_nat_power pow2_nat)
  with b(1) have "pow2 ?e < pow2 53" by linarith
  then have e53: "?e < 53" using pow2_mono [of 53 ?e] by (cases "?e < 53") auto
  define j where "j = nat (52 - ?e)"
  have je: "int j = 52 - ?e" using e53 by (simp add: j_def)
  have "pow2 (?e - 52) * pow2 (int j) = pow2 0" using pow2_add [of "?e - 52" "int j"] je by simp
  then have u: "pow2 (?e - 52) = inverse (2 ^ j)"
    by (simp add: pow2_nat pow2_def field_simps)
  have sc: "?x / pow2 (?e - 52) = of_int (int n * 2 ^ j)" by (simp add: u divide_inverse)
  have "round_half_even (?x / pow2 (?e - 52)) = int n * 2 ^ j"
    unfolding sc by (rule round_half_even_of_int)
  then show ?thesis using False by (simp add: fl_def u)
qed

lemma np_round_mono: "x \<le> y \<Longrightarrow> np_round x nd \<le> np_round y nd"
  unfolding np_round_def
  by (intro fl_mono divide_right_mono) (auto intro!: round_half_even_mono fl_mono mult_right_mono)

lemma fl_two_thirds: "fl (2 / 3) = 6004799503160661 / 9007199254740992"
  by (subst fl_eval [of "-1"]) (simp_all add: pow2_def round_half_even_def Let_def)

lemma fl_half_percent: "fl (2 / 400) = 5764607523034235 / 1152921504606846976"
  by (subst fl_eval [of "-8"]) (simp_all add: pow2_def round_half_even_def Let_def)

lemma fl_8000_5: "fl (16001 / 2) = 16001 / 2"
  by (subst fl_eval [of 12]) (simp_all add: pow2_def round_half_even_def Let_def)

lemma fl_int: "\<bar>z\<bar> < 2 ^ 53 \<Longrightarrow> fl (of_int z) = of_int z"
proof (cases "0 \<le> z")
  case True
  assume "\<bar>z\<bar> < 2 ^ 53"
  with True have "nat z < 2 ^ 53" by (simp add: nat_less_iff)
  from fl_of_nat [OF this] True show ?thesis by simp
next
  case False
  assume "\<bar>z\<bar> < 2 ^ 53"
  with False have "nat (- z) < 2 ^ 53" by (simp add: nat_less_iff)
  from fl_of_nat [OF this] False have "fl (of_int (- z)) = of_int (- z)" by simp
  then show ?thesis using fl_minus [of "of_int z"] by simp
qed

lemma np_round_le_80: "x \<le> 80005 / 1000 \<Longrightarrow> np_round x 2 \<le> 80"
proof -
  assume "x \<le> 80005 / 1000"
  then have "x * 10 ^ 2 \<le> 16001 / 2" by simp
  then have "fl (x * 10 ^ 2) \<le> 16001 / 2" using fl_mono [of "x * 10 ^ 2" "16001 / 2"] fl_8000_5 by simp
  then have "round_half_even (fl (x * 10 ^ 2)) \<le> round_half_even (16001 / 2)"
    by (rule round_half_even_mono)
  also have "round_half_even (16001 / 2) = 8000" by (simp add: round_half_even_def Let_def)
  finally have "(of_int (round_half_even (fl (x * 10 ^ 2))) :: real) \<le> of_int 8000"
    by (simp only: of_int_le_iff)
  then have "of_int (round_half_even (fl (x * 10 ^ 2))) / 10 ^ 2 \<le> (of_int 80 :: real)" by simp
  then have "np_round x 2 \<le> fl (of_int 80)" unfolding np_round_def by (rule fl_mono)
  also have "fl (of_int 80) = 80" using fl_int [of 80] by simp
  finally show ?thesis .
qed

subsection \<open>Frames and copies\<close>

lemma untouched_refl: "untouched s s"
  by (simp add: untouched_def)

lemma untouched_trans: "untouched s s1 \<Longrightarrow> untouched s1 s2 \<Longrightarrow> untouched s s2"
proof -
  assume a: "untouched s s1" and b: "untouched s1 s2"
  have len: "length (frames s) \<le> length (frames s1)" using a by (simp add: untouched_def)
  have "take (length (frames s)) (take (length (frames s1)) (frames s2))
      = take (length (frames s)) (frames s2)"
    using len by (simp add: min_absorb1)
  moreover have "take (length (frames s1)) (frames s2) = frames s1"
    using b by (simp add: untouched_def)
  moreover have "take (length (frames s)) (frames s1) = frames s"
    using a by (simp add: untouched_def)
  ultimately have "take (length (frames s)) (frames s2) = frames s" by simp
  then show ?thesis using a b by (simp add: untouched_def)
qed

lemma untouched_frame_at:
  "untouched s s' \<Longrightarrow> a < length (frames s) \<Longrightarrow> frame_at s' a = frame_at s a"
proof -
  assume u: "untouched s s'" and a: "a < length (frames s)"
  have "take (length (frames s)) (frames s') ! a = frames s' ! a" using a by simp
  moreover have "take (length (frames s)) (frames s') = frames s"
    using u by (simp add: untouched_def)
  ultimately have "frames s' ! a = frames s ! a" by simp
  then show ?thesis using u a by (simp add: untouched_def frame_at_def)
qed

lemma df_copy_facts:
  assumes "df_copy a s = (c, s1)"
  shows "untouched s s1" and "c = length (frames s)" and "frame_at s1 c = frame_at s a"
    and "length (frames s1) = Suc (length (frames s))"
  using assms by (auto simp: df_copy_def untouched_def frame_at_def)

lemma set_column_fresh:
  assumes "untouched s s1" and "length (frames s) \<le> c"
  shows "untouched s (set_column c name vals s1)"
  using assms
  by (auto simp: set_column_def untouched_def frame_at_def split: frame.splits)

lemma set_column_rows:
  "request_rows (frame_at (set_column c name vals s) c) = request_rows (frame_at s c)"
  by (auto simp: set_column_def frame_at_def request_rows_def split: frame.splits)

lemma request_logs_loaded_frame:
  assumes "request_logs_loaded s df"
  obtains a where "request_logs_df (engine s) = Some a" and "a < length (frames s)"
    and "request_rows (frame_at s a) = df"
  using assms
  by (auto simp: request_logs_loaded_def frame_at_def request_rows_def
      split: option.splits frame.splits)

lemma server_metrics_loaded_frame:
  assumes "server_metrics_loaded s df"
  obtains b where "server_metrics_df (engine s) = Some b" and "b < length (frames s)"
    and "server_rows (frame_at s b) = df"
  using assms
  by (auto simp: server_metrics_loaded_def frame_at_def server_rows_def
      split: option.splits frame.splits)

lemma untouched_request_logs_loaded:
  assumes "untouched s s'" and "request_logs_loaded s df"
  shows "request_logs_loaded s' df"
proof -
  from assms(2) obtain a where a: "request_logs_df (engine s) = Some a" "a < length (frames s)"
    by (auto simp: request_logs_loaded_def split: option.splits)
  have "frames s' ! a = frames s ! a"
    using untouched_frame_at [OF assms(1) a(2)] a(2) assms(1)
    by (simp add: frame_at_def untouched_def)
  then show ?thesis using assms a by (simp add: request_logs_loaded_def untouched_def)
qed

lemma untouched_server_metrics_loaded:
  assumes "untouched s s'" and "server_metrics_loaded s df"
  shows "server_metrics_loaded s' df"
proof -
  from assms(2) obtain a where a: "server_metrics_df (engine s) = Some a" "a < length (frames s)"
    by (auto simp: server_metrics_loaded_def split: option.splits)
  have "frames s' ! a = frames s ! a"
    using untouched_frame_at [OF assms(1) a(2)] a(2) assms(1)
    by (simp add: frame_at_def untouched_def)
  then show ?thesis using assms a by (simp add: server_metrics_loaded_def untouched_def)
qed

subsection \<open>What each method returns on loaded data\<close>

lemma compute_request_kpis_loaded:
  assumes "request_logs_loaded s df" and "df \<noteq> []"
  shows "fst (compute_request_kpis lib s) = Inr (request_kpis_of lib df)"
    and "untouched s (snd (compute_request_kpis lib s))"
proof -
  from assms(1) obtain a where a: "request_logs_df (engine s) = Some a"
      "request_rows (frame_at s a) = df" by (rule request_logs_loaded_frame)
  obtain c s1 where c: "df_copy a s = (c, s1)" by (cases "df_copy a s")
  note f = df_copy_facts [OF c]
  show "fst (compute_request_kpis lib s) = Inr (request_kpis_of lib df)"
    using a c f(3) assms(2) by (simp add: compute_request_kpis_def)
  show "untouched s (snd (compute_request_kpis lib s))"
    using a c f(1) by (simp add: compute_request_kpis_def Let_def)
qed

lemma compute_request_kpis_untouched: "untouched s (snd (compute_request_kpis lib s))"
proof (cases "request_logs_df (engine s)")
  case None
  then show ?thesis by (simp add: compute_request_kpis_def untouched_refl)
next
  case (Some a)
  obtain c s1 where c: "df_copy a s = (c, s1)" by (cases "df_copy a s")
  then show ?thesis
    using Some df_copy_facts(1) [OF c] by (simp add: compute_request_kpis_def Let_def)
qed

lemma compute_server_kpis_loaded:
  assumes "server_metrics_loaded s df"
  shows "fst (compute_server_kpis lib s) = Inr (server_kpis_of lib df)"
    and "untouched s (snd (compute_server_kpis lib s))"
proof -
  from assms(1) obtain a where a: "server_metrics_df (engine s) = Some a"
      "server_rows (frame_at s a) = df" by (rule server_metrics_loaded_frame)
  obtain c s1 where c: "df_copy a s = (c, s1)" by (cases "df_copy a s")
  note f = df_copy_facts [OF c]
  show "fst (compute_server_kpis lib s) = Inr (server_kpis_of lib df)"
    using a c f(3) by (simp add: compute_server_kpis_def)
  show "untouched s (snd (compute_server_kpis lib s))"
    using a c f(1) by (simp add: compute_server_kpis_def)
qed

lemma compute_traffic_patterns_loaded:
  assumes "request_logs_loaded s df" and "df \<noteq> []"
  shows "fst (compute_traffic_patterns lib s) = Inr (traffic_patterns_of lib df)"
    and "untouched s (snd (compute_traffic_patterns lib s))"
proof -
  from assms(1) obtain a where a: "request_logs_df (engine s) = Some a"
      "request_rows (frame_at s a) = df" by (rule request_logs_loaded_frame)
  obtain c s1 where c: "df_copy a s = (c, s1)" by (cases "df_copy a s")
  note f = df_copy_facts [OF c]
  have rows: "request_rows (frame_at s1 c) = df" using f(3) a(2) by simp
  let ?s2 = "set_column c ''hour'' (IntColumn (map hour df)) s1"
  let ?s3 = "set_column c ''day_of_week'' (StrColumn (map day_of_week df)) ?s2"
  have r3: "request_rows (frame_at ?s3 c) = df" using rows by (simp add: set_column_rows)
  have fresh: "length (frames s) \<le> c" using f(2) by simp
  have u2: "untouched s ?s2" using f(1) fresh by (rule set_column_fresh)
  have u3: "untouched s ?s3" using u2 fresh by (rule set_column_fresh)
  show "fst (compute_traffic_patterns lib s) = Inr (traffic_patterns_of lib df)"
    using a c rows r3 assms(2) by (simp add: compute_traffic_patterns_def Let_def)
  show "untouched s (snd (compute_traffic_patterns lib s))"
    using a c rows u3 assms(2) by (simp add: compute_traffic_patterns_def Let_def)
qed

lemma detect_anomalies_loaded:
  assumes "request_logs_loaded s df_req" and "df_req \<noteq> []" and "server_metrics_loaded s df_srv"
  shows "fst (detect_anomalies lib s) = Inr (anomalies_of lib df_req df_srv)"
    and "untouched s (snd (detect_anomalies lib s))"
proof -
  from assms(1) obtain a where a: "request_logs_df (engine s) = Some a" "a < length (frames s)"
      "request_rows (frame_at s a) = df_req" by (rule request_logs_loaded_frame)
  from assms(3) obtain b where b: "server_metrics_df (engine s) = Some b" "b < length (frames s)"
      "server_rows (frame_at s b) = df_srv" by (rule server_metrics_loaded_frame)
  obtain c s1 where c: "df_copy a s = (c, s1)" by (cases "df_copy a s")
  obtain d s2 where d: "df_copy b s1 = (d, s2)" by (cases "df_copy b s1")
  note f = df_copy_facts [OF c]
  note g = df_copy_facts [OF d]
  have b1: "frame_at s1 b = frame_at s b" using untouched_frame_at [OF f(1) b(2)] .
  have c2: "frame_at s2 c = frame_at s1 c"
    using untouched_frame_at [OF g(1), of c] f(2) f(4) by simp
  have rq: "request_rows (frame_at s2 c) = df_req" using c2 f(3) a(3) by simp
  have rs: "server_rows (frame_at s2 d) = df_srv" using g(3) b1 b(3) by simp
  have u: "untouched s s2" using f(1) g(1) by (rule untouched_trans)
  show "fst (detect_anomalies lib s) = Inr (anomalies_of lib df_req df_srv)"
    using a(1) b(1) c d rq rs assms(2) by (simp add: detect_anomalies_def)
  show "untouched s (snd (detect_anomalies lib s))"
    using a(1) b(1) c d rq u assms(2) by (simp add: detect_anomalies_def)
qed

lemma generate_comprehensive_report_loaded:
  assumes rq: "request_logs_loaded s df_req" and ne: "df_req \<noteq> []"
    and sv: "server_metrics_loaded s df_srv"
  shows "fst (generate_comprehensive_report now lib s)
      = Inr \<lparr> metadata =
               \<lparr> generated_at = now,
                 request_log_entries = length df_req,
                 server_metric_entries = length df_srv,
                 report_time_range =
                   \<lparr> range_start = Min (set (map timestamp df_req)),
                     range_end = Max (set (map timestamp df_req)) \<rparr> \<rparr>,
             report_request_kpis = request_kpis_of lib df_req,
             report_server_kpis = server_kpis_of lib df_srv,
             report_traffic_patterns = traffic_patterns_of lib df_req,
             report_anomalies = anomalies_of lib df_req df_srv \<rparr>"
    and "untouched s (snd (generate_comprehensive_report now lib s))"
proof -
  from rq obtain a where a: "request_logs_df (engine s) = Some a"
      "request_rows (frame_at s a) = df_req" by (rule request_logs_loaded_frame)
  from sv obtain b where b: "server_metrics_df (engine s) = Some b"
      "server_rows (frame_at s b) = df_srv" by (rule server_metrics_loaded_frame)
  obtain r1 s1 where k1: "compute_request_kpis lib s = (r1, s1)"
    by (cases "compute_request_kpis lib s")
  have r1: "r1 = Inr (request_kpis_of lib df_req)" and u1: "untouched s s1"
    using compute_request_kpis_loaded [OF rq ne, of lib] k1 by simp_all
  have rq1: "request_logs_loaded s1 df_req" using u1 rq by (rule untouched_request_logs_loaded)
  have sv1: "server_metrics_loaded s1 df_srv" using u1 sv by (rule untouched_server_metrics_loaded)
  obtain r2 s2 where k2: "compute_server_kpis lib s1 = (r2, s2)"
    by (cases "compute_server_kpis lib s1")
  have r2: "r2 = Inr (server_kpis_of lib df_srv)" and u2: "untouched s1 s2"
    using compute_server_kpis_loaded [OF sv1, of lib] k2 by simp_all
  have rq2: "request_logs_loaded s2 df_req" using u2 rq1 by (rule untouched_request_logs_loaded)
  have sv2: "server_metrics_loaded s2 df_srv" using u2 sv1 by (rule untouched_server_metrics_loaded)
  obtain r3 s3 where k3: "compute_traffic_patterns lib s2 = (r3, s3)"
    by (cases "compute_traffic_patterns lib s2")
  have r3: "r3 = Inr (traffic_patterns_of lib df_req)" and u3: "untouched s2 s3"
    using compute_traffic_patterns_loaded [OF rq2 ne, of lib] k3 by simp_all
  have rq3: "request_logs_loaded s3 df_req" using u3 rq2 by (rule untouched_request_logs_loaded)
  have sv3: "server_metrics_loaded s3 df_srv" using u3 sv2 by (rule untouched_server_metrics_loaded)
  obtain r4 s4 where k4: "detect_anomalies lib s3 = (r4, s4)"
    by (cases "detect_anomalies lib s3")
  have r4: "r4 = Inr (anomalies_of lib df_req df_srv)" and u4: "untouched s3 s4"
    using detect_anomalies_loaded [OF rq3 ne sv3, of lib] k4 by simp_all
  have u: "untouched s s4"
    using u1 u2 u3 u4 by (blast intro: untouched_trans)
  show "fst (generate_comprehensive_report now lib s)
      = Inr \<lparr> metadata =
               \<lparr> generated_at = now,
                 request_log_entries = length df_req,
                 server_metric_entries = length df_srv,
                 report_time_range =
                   \<lparr> range_start = Min (set (map timestamp df_req)),
                     range_end = Max (set (map timestamp df_req)) \<rparr> \<rparr>,
             report_request_kpis = request_kpis_of lib df_req,
             report_server_kpis = server_kpis_of lib df_srv,
             report_traffic_patterns = traffic_patterns_of lib df_req,
             report_anomalies = anomalies_of lib df_req df_srv \<rparr>"
    using a b ne k1 k2 k3 k4 r1 r2 r3 r4
    by (simp add: generate_comprehensive_report_def)
  show "untouched s (snd (generate_comprehensive_report now lib s))"
    using a b ne k1 k2 k3 k4 r1 r2 r3 r4 u
    by (simp add: generate_comprehensive_report_def)
qed

lemma compute_server_kpis_untouched: "untouched s (snd (compute_server_kpis lib s))"
proof (cases "server_metrics_df (engine s)")
  case None
  then show ?thesis by (simp add: compute_server_kpis_def untouched_refl)
next
  case (Some a)
  obtain c s1 where c: "df_copy a s = (c, s1)" by (cases "df_copy a s")
  then show ?thesis
    using Some df_copy_facts(1) [OF c] by (simp add: compute_server_kpis_def Let_def)
qed

lemma compute_traffic_patterns_untouched: "untouched s (snd (compute_traffic_patterns lib s))"
proof (cases "request_logs_df (engine s)")
  case None
  then show ?thesis by (simp add: compute_traffic_patterns_def untouched_refl)
next
  case (Some a)
  obtain c s1 where c: "df_copy a s = (c, s1)" by (cases "df_copy a s")
  note f = df_copy_facts [OF c]
  have fresh: "length (frames s) \<le> c" using f(2) by simp
  have u2: "untouched s (set_column c n1 v1 s1)" for n1 v1
    using f(1) fresh by (rule set_column_fresh)
  have u3: "untouched s (set_column c n2 v2 (set_column c n1 v1 s1))" for n1 v1 n2 v2
    using u2 fresh by (rule set_column_fresh)
  show ?thesis
    using Some c f(1) u3 by (simp add: compute_traffic_patterns_def Let_def)
qed

lemma detect_anomalies_untouched: "untouched s (snd (detect_anomalies lib s))"
proof (cases "request_logs_df (engine s)")
  case None
  then show ?thesis by (simp add: detect_anomalies_def untouched_refl)
next
  case (Some a)
  show ?thesis
  proof (cases "server_metrics_df (engine s)")
    case None
    then show ?thesis using Some by (simp add: detect_anomalies_def untouched_refl)
  next
    case b: (Some b)
    obtain c s1 where c: "df_copy a s = (c, s1)" by (cases "df_copy a s")
    obtain d s2 where d: "df_copy b s1 = (d, s2)" by (cases "df_copy b s1")
    have u: "untouched s s2"
      using df_copy_facts(1) [OF c] df_copy_facts(1) [OF d] by (rule untouched_trans)
    show ?thesis using Some b c d u by (simp add: detect_anomalies_def Let_def)
  qed
qed

lemma compute_request_kpis_no_ValueError:
  "request_logs_df (engine s) = Some a \<Longrightarrow> fst (compute_request_kpis lib s) \<noteq> Inl (ValueError m)"
  by (auto simp: compute_request_kpis_def Let_def split: prod.splits)

lemma compute_server_kpis_no_ValueError:
  "server_metrics_df (engine s) = Some a \<Longrightarrow> fst (compute_server_kpis lib s) \<noteq> Inl (ValueError m)"
  by (auto simp: compute_server_kpis_def Let_def split: prod.splits)

lemma compute_traffic_patterns_no_ValueError:
  "request_logs_df (engine s) = Some a \<Longrightarrow> fst (compute_traffic_patterns lib s) \<noteq> Inl (ValueError m)"
  by (auto simp: compute_traffic_patterns_def Let_def split: prod.splits)

lemma detect_anomalies_no_ValueError:
  "request_logs_df (engine s) = Some a \<Longrightarrow> server_metrics_df (engine s) = Some b
     \<Longrightarrow> fst (detect_anomalies lib s) \<noteq> Inl (ValueError m)"
  by (auto simp: detect_anomalies_def Let_def split: prod.splits)

lemma generate_comprehensive_report_no_ValueError:
  assumes a: "request_logs_df (engine s) = Some a" and b: "server_metrics_df (engine s) = Some b"
  shows "fst (generate_comprehensive_report now lib s) \<noteq> Inl (ValueError m)"
proof (cases "request_rows (frame_at s a) = []")
  case True
  then show ?thesis using a b by (simp add: generate_comprehensive_report_def)
next
  case False
  obtain r1 s1 where k1: "compute_request_kpis lib s = (r1, s1)"
    by (cases "compute_request_kpis lib s")
  obtain r2 s2 where k2: "compute_server_kpis lib s1 = (r2, s2)"
    by (cases "compute_server_kpis lib s1")
  obtain r3 s3 where k3: "compute_traffic_patterns lib s2 = (r3, s3)"
    by (cases "compute_traffic_patterns lib s2")
  obtain r4 s4 where k4: "detect_anomalies lib s3 = (r4, s4)"
    by (cases "detect_anomalies lib s3")
  have e1: "engine s1 = engine s"
    using compute_request_kpis_untouched [of s lib] k1 by (simp add: untouched_def)
  have e2: "engine s2 = engine s"
    using compute_server_kpis_untouched [of s1 lib] k2 e1 by (simp add: untouched_def)
  have e3: "engine s3 = engine s"
    using compute_traffic_patterns_untouched [of s2 lib] k3 e2 by (simp add: untouched_def)
  have n1: "r1 \<noteq> Inl (ValueError m)"
    using compute_request_kpis_no_ValueError [OF a, of lib m] k1 by simp
  have n2: "r2 \<noteq> Inl (ValueError m)"
    using compute_server_kpis_no_ValueError [of s1 b lib m] k2 b e1 by simp
  have n3: "r3 \<noteq> Inl (ValueError m)"
    using compute_traffic_patterns_no_ValueError [of s2 a lib m] k3 a e2 by simp
  have n4: "r4 \<noteq> Inl (ValueError m)"
    using detect_anomalies_no_ValueError [of s3 a b lib m] k4 a b e3 by simp
  show ?thesis
    using a b False k1 k2 k3 k4 n1 n2 n3 n4
    by (cases r1; cases r2; cases r3; cases r4)
       (simp_all add: generate_comprehensive_report_def Let_def)
qed

subsection \<open>The example states, and values the roundings leave alone\<close>

lemma loaded_state_loaded:
  "request_logs_loaded (loaded_state df_req df_srv) df_req"
  "server_metrics_loaded (loaded_state df_req df_srv) df_srv"
  by (simp_all add: loaded_state_def request_logs_loaded_def server_metrics_loaded_def)

lemma np_round_of_int:
  assumes "\<bar>z\<bar> * 100 < 2 ^ 53"
  shows "np_round (of_int z) 2 = of_int z"
proof -
  have a: "\<bar>z * 100\<bar> < 2 ^ 53" using assms by (simp add: abs_mult)
  have "fl (of_int z * 10 ^ 2) = fl (of_int (z * 100))" by simp
  also have "\<dots> = of_int (z * 100)" using a by (rule fl_int)
  finally have "round_half_even (fl (of_int z * 10 ^ 2)) = z * 100"
    by (simp only: round_half_even_of_int)
  then have "of_int (round_half_even (fl (of_int z * 10 ^ 2))) / 10 ^ 2 = (of_int z :: real)"
    by simp
  moreover have "fl (of_int z) = of_int z" using assms by (intro fl_int) linarith
  ultimately show ?thesis by (simp only: np_round_def)
qed

lemma py_round_of_nat:
  assumes "n < 2 ^ 53"
  shows "py_round (of_nat n) 2 = of_nat n"
proof -
  have "(of_nat n :: real) * 10 ^ 2 = of_int (int n * 100)" by simp
  then have "round_half_even (of_nat n * 10 ^ 2) = int n * 100"
    by (simp only: round_half_even_of_int)
  then have "decimal_round (of_nat n) 2 = of_nat n" by (simp add: decimal_round_def)
  then show ?thesis using fl_of_nat [OF assms] by (simp add: py_round_def)
qed

lemma fl_nonneg: "0 \<le> x \<Longrightarrow> 0 \<le> fl x"
  using fl_mono [of 0 x] by (simp add: fl_zero)

lemma total_seconds_nonneg: "0 \<le> ns \<Longrightarrow> 0 \<le> total_seconds ns"
proof -
  assume ns: "0 \<le> ns"
  have a: "0 \<le> (ns div 1000) div 1000000" using ns by (simp add: pos_imp_zdiv_nonneg_iff)
  have b: "0 \<le> (ns div 1000) mod 1000000" by simp
  have "0 \<le> fl (of_int ((ns div 1000) mod 1000000) / 1000000)"
    using b by (intro fl_nonneg) simp
  then have "0 \<le> of_int ((ns div 1000) div 1000000)
                 + fl (of_int ((ns div 1000) mod 1000000) / 1000000)"
    using a by simp
  then show ?thesis unfolding total_seconds_def Let_def by (rule fl_nonneg)
qed

lemma total_seconds_whole:
  assumes "0 \<le> S" and "S < 2 ^ 53"
  shows "total_seconds (S * 1000000000) = of_int S"
proof -
  have d: "(S * 1000000000) div 1000 = S * 1000000" by simp
  have "fl (of_int S) = of_int S" using assms by (intro fl_int) simp
  then show ?thesis by (simp add: total_seconds_def Let_def d fl_zero)
qed

subsection \<open>Preconditions of the engine\<close>

text \<open>
  C8. Each of the five computations raises its \<open>ValueError\<close> ("... not loaded") exactly
  when a frame it needs is \<open>None\<close>: the request log for \<open>compute_request_kpis\<close> and
  \<open>compute_traffic_patterns\<close>, the server metrics for \<open>compute_server_kpis\<close>, either of
  the two for \<open>detect_anomalies\<close> and \<open>generate_comprehensive_report\<close>. The error is
  raised before anything else is done: the state of the interpreter is the one the call
  started in, no copy of a frame has been made. Loaded values are not validated: on
  loaded, non-empty data the KPI methods return, and the totals and the maximum are
  those of the rows whatever their values. (A loaded request log without rows makes
  the request methods raise \<open>AttributeError\<close>, which is not the precondition error.)
\<close>

theorem precondition_errors:
  "(fst (compute_request_kpis lib s)
      = Inl (ValueError ''Request logs data not loaded. Call load_data() first.'')
      \<longleftrightarrow> request_logs_df (engine s) = None)
   \<and> (fst (compute_traffic_patterns lib s)
      = Inl (ValueError ''Request logs data not loaded. Call load_data() first.'')
      \<longleftrightarrow> request_logs_df (engine s) = None)
   \<and> (fst (compute_server_kpis lib s)
      = Inl (ValueError ''Server metrics data not loaded. Call load_data() first.'')
      \<longleftrightarrow> server_metrics_df (engine s) = None)
   \<and> (fst (detect_anomalies lib s)
      = Inl (ValueError ''Both request logs and server metrics data must be loaded'')
      \<longleftrightarrow> request_logs_df (engine s) = None \<or> server_metrics_df (engine s) = None)
   \<and> (fst (generate_comprehensive_report now lib s)
      = Inl (ValueError ''Both request logs and server metrics data must be loaded'')
      \<longleftrightarrow> request_logs_df (engine s) = None \<or> server_metrics_df (engine s) = None)
   \<and> (request_logs_df (engine s) = None \<longrightarrow>
        snd (compute_request_kpis lib s) = s \<and> snd (compute_traffic_patterns lib s) = s)
   \<and> (server_metrics_df (engine s) = None \<longrightarrow> snd (compute_server_kpis lib s) = s)
   \<and> (request_logs_df (engine s) = None \<or> server_metrics_df (engine s) = None \<longrightarrow>
        snd (detect_anomalies lib s) = s \<and> snd (generate_comprehensive_report now lib s) = s)
   \<and> (\<forall>df. request_logs_loaded s df \<and> df \<noteq> [] \<longrightarrow>
        (\<exists>k. fst (compute_request_kpis lib s) = Inr k
           \<and> total_requests k = length df
           \<and> total_bytes_transferred k = int64 (sum_list (map bytes_sent df))
           \<and> status_code_distribution k = value_counts (map status_code df)))
   \<and> (\<forall>df. server_metrics_loaded s df \<and> df \<noteq> [] \<longrightarrow>
        (\<exists>k. fst (compute_server_kpis lib s) = Inr k
           \<and> total_active_connections k = int64 (sum_list (map active_connections df))
           \<and> max_cpu_usage k = Some (np_round (Max (set (map cpu_usage_percent df))) 2)))"
proof -
  have 1: "fst (compute_request_kpis lib s)
      = Inl (ValueError ''Request logs data not loaded. Call load_data() first.'')
      \<longleftrightarrow> request_logs_df (engine s) = None"
    using compute_request_kpis_no_ValueError [of s _ lib]
    by (cases "request_logs_df (engine s)") (auto simp: compute_request_kpis_def)
  have 2: "fst (compute_traffic_patterns lib s)
      = Inl (ValueError ''Request logs data not loaded. Call load_data() first.'')
      \<longleftrightarrow> request_logs_df (engine s) = None"
    using compute_traffic_patterns_no_ValueError [of s _ lib]
    by (cases "request_logs_df (engine s)") (auto simp: compute_traffic_patterns_def)
  have 3: "fst (compute_server_kpis lib s)
      = Inl (ValueError ''Server metrics data not loaded. Call load_data() first.'')
      \<longleftrightarrow> server_metrics_df (engine s) = None"
    using compute_server_kpis_no_ValueError [of s _ lib]
    by (cases "server_metrics_df (engine s)") (auto simp: compute_server_kpis_def)
  have 4: "fst (detect_anomalies lib s)
      = Inl (ValueError ''Both request logs and server metrics data must be loaded'')
      \<longleftrightarrow> request_logs_df (engine s) = None \<or> server_metrics_df (engine s) = None"
    using detect_anomalies_no_ValueError [of s _ _ lib]
    by (cases "request_logs_df (engine s)"; cases "server_metrics_df (engine s)")
       (auto simp: detect_anomalies_def)
  have 5: "fst (generate_comprehensive_report now lib s)
      = Inl (ValueError ''Both request logs and server metrics data must be loaded'')
      \<longleftrightarrow> request_logs_df (engine s) = None \<or> server_metrics_df (engine s) = None"
    using generate_comprehensive_report_no_ValueError [of s _ _ now lib]
    by (cases "request_logs_df (engine s)"; cases "server_metrics_df (engine s)")
       (auto simp: generate_comprehensive_report_def)
  have 6: "request_logs_df (engine s) = None \<longrightarrow>
        snd (compute_request_kpis lib s) = s \<and> snd (compute_traffic_patterns lib s) = s"
    by (simp add: compute_request_kpis_def compute_traffic_patterns_def)
  have 7: "server_metrics_df (engine s) = None \<longrightarrow> snd (compute_server_kpis lib s) = s"
    by (simp add: compute_server_kpis_def)
  have 8: "request_logs_df (engine s) = None \<or> server_metrics_df (engine s) = None \<longrightarrow>
        snd (detect_anomalies lib s) = s \<and> snd (generate_comprehensive_report now lib s) = s"
    by (auto simp: detect_anomalies_def generate_comprehensive_report_def split: option.splits)
  have 9: "\<forall>df. request_logs_loaded s df \<and> df \<noteq> [] \<longrightarrow>
        (\<exists>k. fst (compute_request_kpis lib s) = Inr k
           \<and> total_requests k = length df
           \<and> total_bytes_transferred k = int64 (sum_list (map bytes_sent df))
           \<and> status_code_distribution k = value_counts (map status_code df))"
  proof (intro allI impI)
    fix df assume "request_logs_loaded s df \<and> df \<noteq> []"
    then have "fst (compute_request_kpis lib s) = Inr (request_kpis_of lib df)"
      using compute_request_kpis_loaded(1) [of s df lib] by simp
    then show "\<exists>k. fst (compute_request_kpis lib s) = Inr k
           \<and> total_requests k = length df
           \<and> total_bytes_transferred k = int64 (sum_list (map bytes_sent df))
           \<and> status_code_distribution k = value_counts (map status_code df)"
      by (simp add: request_kpis_of_def)
  qed
  have 10: "\<forall>df. server_metrics_loaded s df \<and> df \<noteq> [] \<longrightarrow>
        (\<exists>k. fst (compute_server_kpis lib s) = Inr k
           \<and> total_active_connections k = int64 (sum_list (map active_connections df))
           \<and> max_cpu_usage k = Some (np_round (Max (set (map cpu_usage_percent df))) 2))"
  proof (intro allI impI)
    fix df assume h: "server_metrics_loaded s df \<and> df \<noteq> []"
    then have "fst (compute_server_kpis lib s) = Inr (server_kpis_of lib df)"
      using compute_server_kpis_loaded(1) [of s df lib] by simp
    then show "\<exists>k. fst (compute_server_kpis lib s) = Inr k
           \<and> total_active_connections k = int64 (sum_list (map active_connections df))
           \<and> max_cpu_usage k = Some (np_round (Max (set (map cpu_usage_percent df))) 2)"
      using h by (simp add: server_kpis_of_def series_max_def)
  qed
  show ?thesis using 1 2 3 4 5 6 7 8 9 10 by blast
qed

theorem precondition_errors_witness:
  "fst (compute_request_kpis exact_lib unloaded_state)
      = Inl (ValueError ''Request logs data not loaded. Call load_data() first.'')
   \<and> fst (compute_traffic_patterns exact_lib unloaded_state)
      = Inl (ValueError ''Request logs data not loaded. Call load_data() first.'')
   \<and> fst (compute_server_kpis exact_lib unloaded_state)
      = Inl (ValueError ''Server metrics data not loaded. Call load_data() first.'')
   \<and> fst (detect_anomalies exact_lib unloaded_state)
      = Inl (ValueError ''Both request logs and server metrics data must be loaded'')
   \<and> fst (generate_comprehensive_report 0 exact_lib unloaded_state)
      = Inl (ValueError ''Both request logs and server metrics data must be loaded'')
   \<and> snd (compute_request_kpis exact_lib unloaded_state) = unloaded_state
   \<and> snd (generate_comprehensive_report 0 exact_lib unloaded_state) = unloaded_state
   \<and> (\<exists>k. fst (compute_request_kpis exact_lib
               (loaded_state [(example_request 0 200 120)\<lparr>bytes_sent := - 7\<rparr>]
                  [(example_metric ''srv-01'' 420 61)\<lparr>active_connections := - 3\<rparr>])) = Inr k
         \<and> total_requests k = 1 \<and> total_bytes_transferred k = - 7)
   \<and> (\<exists>k. fst (compute_server_kpis exact_lib
               (loaded_state [(example_request 0 200 120)\<lparr>bytes_sent := - 7\<rparr>]
                  [(example_metric ''srv-01'' 420 61)\<lparr>active_connections := - 3\<rparr>])) = Inr k
         \<and> total_active_connections k = - 3 \<and> max_cpu_usage k = Some 420)"
proof -
  let ?rq = "[(example_request 0 200 120)\<lparr>bytes_sent := - 7\<rparr>]"
  let ?sv = "[(example_metric ''srv-01'' 420 61)\<lparr>active_connections := - 3\<rparr>]"
  let ?s = "loaded_state ?rq ?sv"
  have un: "request_logs_df (engine unloaded_state) = None"
      "server_metrics_df (engine unloaded_state) = None"
    by (simp_all add: unloaded_state_def)
  have r420: "np_round 420 2 = 420" using np_round_of_int [of 420] by simp
  have i7: "int64 (- 7) = - 7" "int64 (- 3) = - 3" by (simp_all add: int64_def)
  note p = precondition_errors [of exact_lib unloaded_state 0]
  note q = precondition_errors [of exact_lib ?s 0]
  have a: "\<exists>k. fst (compute_request_kpis exact_lib ?s) = Inr k
         \<and> total_requests k = 1 \<and> total_bytes_transferred k = - 7"
  proof -
    from q have "request_logs_loaded ?s ?rq \<and> ?rq \<noteq> [] \<longrightarrow>
        (\<exists>k. fst (compute_request_kpis exact_lib ?s) = Inr k
           \<and> total_requests k = length ?rq
           \<and> total_bytes_transferred k = int64 (sum_list (map bytes_sent ?rq))
           \<and> status_code_distribution k = value_counts (map status_code ?rq))"
      by blast
    then show ?thesis using loaded_state_loaded(1) [of ?rq ?sv] by (auto simp: i7)
  qed
  have b: "\<exists>k. fst (compute_server_kpis exact_lib ?s) = Inr k
         \<and> total_active_connections k = - 3 \<and> max_cpu_usage k = Some 420"
  proof -
    from q have "server_metrics_loaded ?s ?sv \<and> ?sv \<noteq> [] \<longrightarrow>
        (\<exists>k. fst (compute_server_kpis exact_lib ?s) = Inr k
           \<and> total_active_connections k = int64 (sum_list (map active_connections ?sv))
           \<and> max_cpu_usage k = Some (np_round (Max (set (map cpu_usage_percent ?sv))) 2))"
      by blast
    then show ?thesis using loaded_state_loaded(2) [of ?rq ?sv]
      by (auto simp: i7 r420 example_metric_def)
  qed
  show ?thesis using p un a b by simp
qed

subsection \<open>The report is a function of the data\<close>

text \<open>
  C9. With both frames loaded and non-empty, \<open>generate_comprehensive_report\<close> called
  twice in a row, the second call in the state the first one left, returns two reports
  with the same request KPIs, server KPIs, traffic patterns and anomalies; the second
  report is the first one with its \<open>generated_at\<close> replaced. The first call leaves the
  engine and the frames that existed as they were (it works on copies), so the second
  call sees the same data. The reports do depend on the data: the counts, the time
  range, the integer totals and the lists taken from the rows are pinned.
\<close>

theorem report_deterministic:
  assumes "request_logs_loaded s df_req" and "df_req \<noteq> []"
    and "server_metrics_loaded s df_srv" and "df_srv \<noteq> []"
  shows "\<exists>r1 s1 r2 s2.
           generate_comprehensive_report now1 lib s = (Inr r1, s1)
         \<and> generate_comprehensive_report now2 lib s1 = (Inr r2, s2)
         \<and> untouched s s1
         \<and> request_logs_loaded s1 df_req \<and> server_metrics_loaded s1 df_srv
         \<and> report_request_kpis r1 = report_request_kpis r2
         \<and> report_server_kpis r1 = report_server_kpis r2
         \<and> report_traffic_patterns r1 = report_traffic_patterns r2
         \<and> report_anomalies r1 = report_anomalies r2
         \<and> generated_at (metadata r1) = now1
         \<and> r2 = r1\<lparr>metadata := (metadata r1)\<lparr>generated_at := now2\<rparr>\<rparr>
         \<and> request_log_entries (metadata r1) = length df_req
         \<and> server_metric_entries (metadata r1) = length df_srv
         \<and> range_start (report_time_range (metadata r1)) = Min (timestamp ` set df_req)
         \<and> range_end (report_time_range (metadata r1)) = Max (timestamp ` set df_req)
         \<and> total_requests (report_request_kpis r1) = length df_req
         \<and> total_active_connections (report_server_kpis r1)
             = int64 (sum_list (map active_connections df_srv))
         \<and> hourly_traffic_volume (report_traffic_patterns r1) = value_counts (map hour df_req)
         \<and> server_health_failures_above_5 (report_anomalies r1)
             = unique (map m_server_id (filter (\<lambda>r. 5 < backend_health_failures r) df_srv))"
proof -
  obtain x1 s1 where g1: "generate_comprehensive_report now1 lib s = (x1, s1)"
    by (cases "generate_comprehensive_report now1 lib s")
  note l1 = generate_comprehensive_report_loaded [OF assms(1) assms(2) assms(3), of now1 lib]
  have u1: "untouched s s1" using l1(2) g1 by simp
  have rq1: "request_logs_loaded s1 df_req"
    using u1 assms(1) by (rule untouched_request_logs_loaded)
  have sv1: "server_metrics_loaded s1 df_srv"
    using u1 assms(3) by (rule untouched_server_metrics_loaded)
  obtain x2 s2 where g2: "generate_comprehensive_report now2 lib s1 = (x2, s2)"
    by (cases "generate_comprehensive_report now2 lib s1")
  note l2 = generate_comprehensive_report_loaded [OF rq1 assms(2) sv1, of now2 lib]
  show ?thesis
    using g1 g2 l1(1) l2(1) u1 rq1 sv1
    by (simp add: request_kpis_of_def server_kpis_of_def traffic_patterns_of_def anomalies_of_def)
qed

theorem report_deterministic_witness:
  "\<exists>r1 s1 r2 s2.
     generate_comprehensive_report 1000 exact_lib
       (loaded_state [example_request 0 200 120, example_request 5000000000 503 340]
          [example_metric ''srv-01'' 42 61]) = (Inr r1, s1)
   \<and> generate_comprehensive_report 2000 exact_lib s1 = (Inr r2, s2)
   \<and> untouched (loaded_state [example_request 0 200 120, example_request 5000000000 503 340]
          [example_metric ''srv-01'' 42 61]) s1
   \<and> report_request_kpis r1 = report_request_kpis r2
   \<and> report_server_kpis r1 = report_server_kpis r2
   \<and> report_traffic_patterns r1 = report_traffic_patterns r2
   \<and> report_anomalies r1 = report_anomalies r2
   \<and> generated_at (metadata r1) = 1000 \<and> generated_at (metadata r2) = 2000
   \<and> total_requests (report_request_kpis r1) = 2
   \<and> range_end (report_time_range (metadata r1)) = 5000000000"
proof -
  let ?rq = "[example_request 0 200 120, example_request 5000000000 503 340]"
  let ?sv = "[example_metric ''srv-01'' 42 61]"
  have ne: "?rq \<noteq> []" "?sv \<noteq> []" by simp_all
  have mx: "Max (timestamp ` set ?rq) = 5000000000" by (simp add: example_request_def)
  from report_deterministic [of "loaded_state ?rq ?sv" ?rq ?sv 1000 exact_lib 2000,
      OF loaded_state_loaded(1) ne(1) loaded_state_loaded(2) ne(2)]
  obtain r1 s1 r2 s2 where
    h: "generate_comprehensive_report 1000 exact_lib (loaded_state ?rq ?sv) = (Inr r1, s1)"
      "generate_comprehensive_report 2000 exact_lib s1 = (Inr r2, s2)"
      "untouched (loaded_state ?rq ?sv) s1"
      "report_request_kpis r1 = report_request_kpis r2"
      "report_server_kpis r1 = report_server_kpis r2"
      "report_traffic_patterns r1 = report_traffic_patterns r2"
      "report_anomalies r1 = report_anomalies r2"
      "generated_at (metadata r1) = 1000"
      "r2 = r1\<lparr>metadata := (metadata r1)\<lparr>generated_at := 2000\<rparr>\<rparr>"
      "total_requests (report_request_kpis r1) = length ?rq"
      "range_end (report_time_range (metadata r1)) = Max (timestamp ` set ?rq)"
    by blast
  have "generated_at (metadata r2) = 2000" using h(9) by simp
  then show ?thesis using h mx by (intro exI [of _ r1] exI [of _ s1] exI [of _ r2] exI [of _ s2]) simp
qed

subsection \<open>The request rate\<close>

lemma fl_67_100: "fl (67 / 100) = 6034823500676465 / 9007199254740992"
  by (subst fl_eval [of "-1"]) (simp_all add: pow2_def round_half_even_def Let_def)

lemma fl_3: "fl 3 = 3"
  using fl_int [of 3] by simp

text \<open>
  C7, as stated, fails: the rate is rounded to two decimals. Two requests three seconds
  apart give the float nearest to 0.67, which is neither 2/3 nor the float nearest to
  it.
\<close>

theorem requests_per_second_is_rounded:
  "fst (compute_request_kpis exact_lib
          (loaded_state [example_request 0 200 100, example_request 3000000000 200 100] []))
     = Inr (request_kpis_of exact_lib
              [example_request 0 200 100, example_request 3000000000 200 100])
   \<and> total_requests (request_kpis_of exact_lib
        [example_request 0 200 100, example_request 3000000000 200 100]) = 2
   \<and> total_time_seconds [example_request 0 200 100, example_request 3000000000 200 100] = 3
   \<and> requests_per_second (request_kpis_of exact_lib
        [example_request 0 200 100, example_request 3000000000 200 100])
       = fl (67 / 100)
   \<and> fl (67 / 100) \<noteq> 2 / 3
   \<and> fl (67 / 100) \<noteq> fl (2 / 3)"
proof -
  let ?df = "[example_request 0 200 100, example_request 3000000000 200 100]"
  have k: "fst (compute_request_kpis exact_lib (loaded_state ?df []))
      = Inr (request_kpis_of exact_lib ?df)"
    by (rule compute_request_kpis_loaded(1) [OF loaded_state_loaded(1)]) simp
  have ts: "total_seconds 3000000000 = 3" using total_seconds_whole [of 3] by simp
  have tt: "total_time_seconds ?df = 3"
    by (simp add: total_time_seconds_def span_seconds_def py_max_def example_request_def ts)
  have d: "decimal_round (6004799503160661 / 9007199254740992) 2 = 67 / 100"
    by (simp add: decimal_round_def round_half_even_def Let_def)
  have rps: "requests_per_second (request_kpis_of exact_lib ?df) = fl (67 / 100)"
    unfolding request_kpis_of_def request_kpis.select_convs tt
    by (simp add: py_round_def fl_two_thirds d)
  have tr: "total_requests (request_kpis_of exact_lib ?df) = 2"
    by (simp add: request_kpis_of_def)
  show ?thesis using k tr tt rps by (simp add: fl_67_100 fl_two_thirds)
qed

text \<open>
  C7, amended. For a loaded, non-empty request log, \<open>requests_per_second\<close> is the float
  quotient of \<open>total_requests\<close> by \<open>max(span_seconds, 1)\<close>, rounded to two decimals by
  Python's \<open>round\<close>, where \<open>span_seconds\<close> is \<open>total_seconds()\<close> of the latest minus the
  earliest timestamp. The span is not negative, so the denominator is at least 1. When
  all timestamps are equal (and there are fewer than \<open>2 ^ 53\<close> requests) the rate is
  \<open>total_requests\<close>.
\<close>

theorem requests_per_second_rounded_quotient:
  assumes "request_logs_loaded s df" and "df \<noteq> []"
  shows "\<exists>k. fst (compute_request_kpis lib s) = Inr k
           \<and> total_requests k = length df
           \<and> span_seconds df
               = total_seconds (Max (timestamp ` set df) - Min (timestamp ` set df))
           \<and> 0 \<le> span_seconds df
           \<and> total_time_seconds df = max (span_seconds df) 1
           \<and> 1 \<le> total_time_seconds df
           \<and> requests_per_second k
               = py_round (fl (of_nat (total_requests k) / total_time_seconds df)) 2
           \<and> (Max (timestamp ` set df) = Min (timestamp ` set df) \<and> length df < 2 ^ 53 \<longrightarrow>
                requests_per_second k = of_nat (total_requests k))"
proof -
  obtain r where r: "r \<in> set df" using assms(2) by (cases df) auto
  have "Min (timestamp ` set df) \<le> timestamp r" using r by (intro Min_le) auto
  moreover have "timestamp r \<le> Max (timestamp ` set df)" using r by (intro Max_ge) auto
  ultimately have le: "0 \<le> Max (timestamp ` set df) - Min (timestamp ` set df)" by linarith
  have sp: "span_seconds df
      = total_seconds (Max (timestamp ` set df) - Min (timestamp ` set df))"
    by (simp add: span_seconds_def)
  have nonneg: "0 \<le> span_seconds df" unfolding sp using le by (rule total_seconds_nonneg)
  have tt: "total_time_seconds df = max (span_seconds df) 1"
    by (simp add: total_time_seconds_def py_max_def max_def)
  have ge1: "1 \<le> total_time_seconds df" unfolding tt by simp
  have k: "fst (compute_request_kpis lib s) = Inr (request_kpis_of lib df)"
    using assms by (rule compute_request_kpis_loaded(1))
  have tr: "total_requests (request_kpis_of lib df) = length df"
    by (simp add: request_kpis_of_def)
  have rps: "requests_per_second (request_kpis_of lib df)
      = py_round (fl (of_nat (total_requests (request_kpis_of lib df)) / total_time_seconds df)) 2"
    by (simp add: request_kpis_of_def)
  have zero: "Max (timestamp ` set df) = Min (timestamp ` set df) \<and> length df < 2 ^ 53 \<longrightarrow>
      requests_per_second (request_kpis_of lib df) = of_nat (total_requests (request_kpis_of lib df))"
  proof
    assume h: "Max (timestamp ` set df) = Min (timestamp ` set df) \<and> length df < 2 ^ 53"
    then have "span_seconds df = 0"
      unfolding sp using total_seconds_whole [of 0] by simp
    then have "total_time_seconds df = 1" unfolding tt by simp
    then show "requests_per_second (request_kpis_of lib df)
        = of_nat (total_requests (request_kpis_of lib df))"
      unfolding rps tr using h fl_of_nat [of "length df"] py_round_of_nat [of "length df"]
      by simp
  qed
  show ?thesis using k tr sp nonneg tt ge1 rps zero by blast
qed

theorem requests_per_second_rounded_quotient_witness:
  "\<exists>k. fst (compute_request_kpis exact_lib
              (loaded_state [example_request 7000 200 100, example_request 7000 404 30] []))
          = Inr k
      \<and> total_requests k = 2
      \<and> total_time_seconds [example_request 7000 200 100, example_request 7000 404 30] = 1
      \<and> requests_per_second k = 2"
proof -
  let ?df = "[example_request 7000 200 100, example_request 7000 404 30]"
  have ne: "?df \<noteq> []" by simp
  from requests_per_second_rounded_quotient [of "loaded_state ?df []" ?df exact_lib, OF loaded_state_loaded(1) ne]
  obtain k where k: "fst (compute_request_kpis exact_lib (loaded_state ?df [])) = Inr k"
      "total_requests k = length ?df"
      "total_time_seconds ?df = max (span_seconds ?df) 1"
      "span_seconds ?df = total_seconds (Max (timestamp ` set ?df) - Min (timestamp ` set ?df))"
      "Max (timestamp ` set ?df) = Min (timestamp ` set ?df) \<and> length ?df < 2 ^ 53 \<longrightarrow>
         requests_per_second k = of_nat (total_requests k)"
    by blast
  have eq: "Max (timestamp ` set ?df) = Min (timestamp ` set ?df)"
    by (simp add: example_request_def)
  have "span_seconds ?df = 0" unfolding k(4) eq using total_seconds_whole [of 0] by simp
  then have "total_time_seconds ?df = 1" unfolding k(3) by simp
  moreover have "requests_per_second k = 2" using k(5) k(2) eq by simp
  ultimately show ?thesis using k(1) k(2) by auto
qed

subsection \<open>Percentiles\<close>

text \<open>The interpolated quantile of a non-empty sample does not decrease when the
  fraction grows: within one pair of neighbours the interpolation has a non-negative
  slope, and across pairs the sorted sample itself is monotone.\<close>

lemma quantile_mono:
  assumes ne: "xs \<noteq> []" and q: "0 \<le> q1" "q1 \<le> q2" "q2 \<le> 1"
  shows "\<exists>a b. quantile xs q1 = Some a \<and> quantile xs q2 = Some b \<and> a \<le> b"
proof -
  define s where "s = sort xs"
  define n where "n = length s"
  define p1 where "p1 = q1 * of_nat (n - 1)"
  define p2 where "p2 = q2 * of_nat (n - 1)"
  define l1 where "l1 = nat \<lfloor>p1\<rfloor>"
  define l2 where "l2 = nat \<lfloor>p2\<rfloor>"
  define h1 where "h1 = min (l1 + 1) (n - 1)"
  define h2 where "h2 = min (l2 + 1) (n - 1)"
  have npos: "0 < n" using ne by (simp add: n_def s_def)
  have srt: "sorted s" by (simp add: s_def)
  have p1: "0 \<le> p1" "p1 \<le> p2" using q by (auto simp: p1_def p2_def intro: mult_right_mono)
  have p2: "p2 \<le> of_nat (n - 1)"
    using q mult_right_mono [of q2 1 "of_nat (n - 1)"] by (simp add: p2_def)
  have e1: "of_nat l1 = (of_int \<lfloor>p1\<rfloor> :: real)" using p1 by (simp add: l1_def)
  have e2: "of_nat l2 = (of_int \<lfloor>p2\<rfloor> :: real)" using p1 by (simp add: l2_def)
  have fl1: "of_nat l1 \<le> p1" "p1 < of_nat l1 + 1" unfolding e1 by linarith+
  have fl2: "of_nat l2 \<le> p2" "p2 < of_nat l2 + 1" unfolding e2 by linarith+
  have l12: "l1 \<le> l2" using p1 unfolding l1_def l2_def by (intro nat_mono floor_mono)
  have l2n: "l2 \<le> n - 1"
  proof -
    have "(of_nat l2 :: real) \<le> of_nat (n - 1)" using fl2(1) p2 by linarith
    then show ?thesis by simp
  qed
  have "l2 < n" using l2n npos by arith
  then have l2len: "l2 < length s" unfolding n_def .
  have l1h1: "l1 \<le> h1" "h1 < n" "h1 \<le> l1 + 1" using l12 l2n npos by (auto simp: h1_def)
  have l2h2: "l2 \<le> h2" "h2 < n" using l2n npos by (auto simp: h2_def)
  have s1: "s ! l1 \<le> s ! h1" using srt l1h1 by (intro sorted_nth_mono) (auto simp: n_def)
  have s2: "s ! l2 \<le> s ! h2" using srt l2h2 by (intro sorted_nth_mono) (auto simp: n_def)
  define a where "a = s ! l1 + (s ! h1 - s ! l1) * (p1 - of_nat l1)"
  define b where "b = s ! l2 + (s ! h2 - s ! l2) * (p2 - of_nat l2)"
  have qa: "quantile xs q1 = Some a"
    using ne by (simp add: quantile_def Let_def a_def s_def n_def p1_def l1_def h1_def)
  have qb: "quantile xs q2 = Some b"
    using ne by (simp add: quantile_def Let_def b_def s_def n_def p2_def l2_def h2_def)
  have b_lower: "s ! l2 \<le> b"
    using s2 fl2 by (simp add: b_def)
  have a_upper: "a \<le> s ! h1"
  proof -
    have "(s ! h1 - s ! l1) * (p1 - of_nat l1) \<le> (s ! h1 - s ! l1) * 1"
      using s1 fl1 by (intro mult_left_mono) auto
    then show ?thesis by (simp add: a_def)
  qed
  have "a \<le> b"
  proof (cases "l1 = l2")
    case True
    then have h: "h1 = h2" by (simp add: h1_def h2_def)
    have "(s ! h1 - s ! l1) * (p1 - of_nat l1) \<le> (s ! h1 - s ! l1) * (p2 - of_nat l1)"
      using s1 p1 by (intro mult_left_mono) auto
    then show ?thesis using True h by (simp add: a_def b_def)
  next
    case False
    with l12 have "h1 \<le> l2" using l1h1 by linarith
    then have "s ! h1 \<le> s ! l2" using srt l2len by (intro sorted_nth_mono) auto
    with a_upper b_lower show ?thesis by linarith
  qed
  with qa qb show ?thesis by blast
qed

text \<open>
  C5. For a loaded, non-empty request log, \<open>compute_request_kpis\<close> returns as
  \<open>p95_response_time_ms\<close> and \<open>p99_response_time_ms\<close> the linear-interpolation quantiles
  0.95 and 0.99 of the response times, each rounded to two decimals, and the first is
  at most the second.
\<close>

theorem p95_le_p99:
  assumes "request_logs_loaded s df" and "df \<noteq> []"
  shows "\<exists>k a b. fst (compute_request_kpis lib s) = Inr k
           \<and> quantile (response_times df) (95 / 100) = Some a
           \<and> quantile (response_times df) (99 / 100) = Some b
           \<and> p95_response_time_ms k = Some (np_round a 2)
           \<and> p99_response_time_ms k = Some (np_round b 2)
           \<and> np_round a 2 \<le> np_round b 2"
proof -
  have "response_times df \<noteq> []" using assms(2) by (simp add: response_times_def)
  then obtain a b where ab: "quantile (response_times df) (95 / 100) = Some a"
      "quantile (response_times df) (99 / 100) = Some b" "a \<le> b"
    using quantile_mono [of "response_times df" "95 / 100" "99 / 100"] by auto
  have "fst (compute_request_kpis lib s) = Inr (request_kpis_of lib df)"
    using assms by (rule compute_request_kpis_loaded(1))
  moreover have "p95_response_time_ms (request_kpis_of lib df) = Some (np_round a 2)"
    using ab(1) by (simp add: request_kpis_of_def)
  moreover have "p99_response_time_ms (request_kpis_of lib df) = Some (np_round b 2)"
    using ab(2) by (simp add: request_kpis_of_def)
  moreover have "np_round a 2 \<le> np_round b 2" using ab(3) by (rule np_round_mono)
  ultimately show ?thesis using ab(1,2) by blast
qed

theorem p95_le_p99_witness:
  "\<exists>k a b. fst (compute_request_kpis exact_lib
                  (loaded_state (example_latencies [300, 100, 120]) [])) = Inr k
     \<and> quantile (response_times (example_latencies [300, 100, 120])) (95 / 100) = Some a
     \<and> quantile (response_times (example_latencies [300, 100, 120])) (99 / 100) = Some b
     \<and> p95_response_time_ms k = Some (np_round a 2)
     \<and> p99_response_time_ms k = Some (np_round b 2)
     \<and> np_round a 2 \<le> np_round b 2"
  by (rule p95_le_p99 [OF loaded_state_loaded(1)]) (simp add: example_latencies_def)

subsection \<open>Error spikes\<close>

lemma error_percentage_no_errors:
  assumes "\<forall>r\<in>set g. \<not> is_error r"
  shows "error_percentage g = 0"
proof -
  have "filter is_error g = []" using assms by (simp add: filter_empty_conv)
  then show ?thesis by (simp add: error_percentage_def fl_zero)
qed

lemma hourly_errors_zero:
  assumes "\<forall>r\<in>set df. status_code r < 400"
  shows "map snd (hourly_errors df) = replicate (length (hourly_errors df)) 0"
proof -
  have "\<forall>p\<in>set (hourly_errors df). snd p = 0"
  proof
    fix p assume "p \<in> set (hourly_errors df)"
    then obtain h where p: "p = (h, error_percentage (group_rows hour df h))"
      by (auto simp: hourly_errors_def)
    have "\<forall>r\<in>set (group_rows hour df h). \<not> is_error r"
      using assms by (auto simp: group_rows_def is_error_def)
    then have "error_percentage (group_rows hour df h) = 0" by (rule error_percentage_no_errors)
    with p show "snd p = 0" by simp
  qed
  then show ?thesis by (simp add: map_replicate_const [symmetric] cong: map_cong)
qed

lemma error_spike_hours_of_no_errors:
  assumes "\<forall>r\<in>set df. status_code r < 400" and "sums_zeros lib"
  shows "error_spike_hours_of lib df = []"
proof (cases "hourly_errors df = []")
  case True
  then show ?thesis by (simp add: error_spike_hours_of_def float_mean_def)
next
  case False
  let ?he = "hourly_errors df"
  have z: "map snd ?he = replicate (length ?he) 0" using assms(1) by (rule hourly_errors_zero)
  have "series_sum lib (map snd ?he) = 0"
    using assms(2) by (subst z) (simp add: sums_zeros_def)
  then have m: "float_mean lib (map snd ?he) = Some 0"
    using False by (simp add: float_mean_def fl_zero)
  have "\<forall>p\<in>set ?he. snd p = 0"
  proof
    fix p assume "p \<in> set ?he"
    then have "snd p \<in> set (map snd ?he)" by simp
    then show "snd p = 0" by (subst (asm) z) auto
  qed
  then have "filter (\<lambda>(h, e). fl (0 * 2) < e) ?he = []"
    by (auto simp: filter_empty_conv fl_zero)
  then show ?thesis by (simp add: error_spike_hours_of_def Let_def m)
qed

lemma sum_list_replicate_zero: "sum_list (replicate n (0::real)) = 0"
  by (induction n) simp_all

lemma sums_zeros_exact: "sums_zeros exact_lib"
  by (simp add: sums_zeros_def exact_lib_def sum_list_replicate_zero)

text \<open>
  C6. With both frames loaded and a non-empty request log in which no status code is
  400 or above, \<open>detect_anomalies\<close> returns an empty \<open>error_spike_hours\<close>: every hourly
  error rate is 0, their mean is 0 (the summation of the library returns 0 on zeros),
  and no rate is above twice that.
\<close>

theorem no_errors_no_spike_hours:
  assumes "request_logs_loaded s df_req" and "df_req \<noteq> []"
    and "server_metrics_loaded s df_srv"
    and "sums_zeros lib"
    and "\<forall>r\<in>set df_req. status_code r < 400"
  shows "\<exists>an. fst (detect_anomalies lib s) = Inr an \<and> error_spike_hours an = []"
  using detect_anomalies_loaded(1) [OF assms(1) assms(2) assms(3), of lib]
    error_spike_hours_of_no_errors [OF assms(5) assms(4)]
  by (simp add: anomalies_of_def)

theorem no_errors_no_spike_hours_witness:
  "\<exists>an. fst (detect_anomalies exact_lib
               (loaded_state [example_request 0 200 120, example_request 7200000000000 204 95]
                  [example_metric ''srv-01'' 42 61])) = Inr an
     \<and> error_spike_hours an = []"
  by (rule no_errors_no_spike_hours [OF loaded_state_loaded(1) _ loaded_state_loaded(2)
        sums_zeros_exact])
     (simp_all add: example_request_def)

subsection \<open>The slow-request threshold\<close>









subsection \<open>High-utilisation servers\<close>

lemma set_group_keys: "set (group_keys key rows) = key ` set rows"
  by (simp add: group_keys_def)

lemma distinct_group_keys: "distinct (group_keys key rows)"
  by (simp add: group_keys_def)

lemma map_fst_server_util: "map fst (server_util lib df) = group_keys m_server_id df"
  by (simp add: server_util_def comp_def)

lemma set_map_fst_filter_keyed:
  "set (map fst (filter (\<lambda>(k, u). Q u) (map (\<lambda>k. (k, h k)) ks))) = {k \<in> set ks. Q (h k)}"
  by (induction ks) auto

lemma high_cpu_set:
  "set (high_cpu_servers (server_kpis_of lib df))
     = {sid \<in> m_server_id ` set df.
          80 < np_round (group_mean lib (map cpu_usage_percent (group_rows m_server_id df sid))) 2}"
proof -
  have "set (high_cpu_servers (server_kpis_of lib df))
          = {sid \<in> set (group_keys m_server_id df).
               80 < util_cpu_usage_percent (server_util_row_of lib df sid)}"
    unfolding server_kpis_of_def server_util_def server_kpis.select_convs
    by (rule set_map_fst_filter_keyed)
  then show ?thesis by (simp add: set_group_keys server_util_row_of_def Let_def)
qed

lemma high_memory_set:
  "set (high_memory_servers (server_kpis_of lib df))
     = {sid \<in> m_server_id ` set df.
          80 < np_round (group_mean lib (map memory_usage_percent (group_rows m_server_id df sid))) 2}"
proof -
  have "set (high_memory_servers (server_kpis_of lib df))
          = {sid \<in> set (group_keys m_server_id df).
               80 < util_memory_usage_percent (server_util_row_of lib df sid)}"
    unfolding server_kpis_of_def server_util_def server_kpis.select_convs
    by (rule set_map_fst_filter_keyed)
  then show ?thesis by (simp add: set_group_keys server_util_row_of_def Let_def)
qed

lemma distinct_high_cpu: "distinct (high_cpu_servers (server_kpis_of lib df))"
proof -
  have "distinct (map fst (server_util lib df))"
    by (simp add: map_fst_server_util distinct_group_keys)
  then show ?thesis by (simp add: server_kpis_of_def distinct_map_filter)
qed

lemma distinct_high_memory: "distinct (high_memory_servers (server_kpis_of lib df))"
proof -
  have "distinct (map fst (server_util lib df))"
    by (simp add: map_fst_server_util distinct_group_keys)
  then show ?thesis by (simp add: server_kpis_of_def distinct_map_filter)
qed

lemma np_round_gt_80: "80 < np_round x 2 \<Longrightarrow> 80005 / 1000 < x"
  using np_round_le_80 [of x] by (cases "x \<le> 80005 / 1000") auto

lemma np_round_91: "np_round 91 2 = 91"
  using np_round_of_int [of 91] by simp

lemma np_round_85: "np_round 85 2 = 85"
  using np_round_of_int [of 85] by simp

lemma np_round_80: "np_round 80 2 = 80"
  using np_round_of_int [of 80] by simp

lemma np_round_40: "np_round 40 2 = 40"
  using np_round_of_int [of 40] by simp

text \<open>
  C4, as stated, fails: the lists are read off the per-server table after it has been
  rounded to two decimals. A server with the CPU samples 80 and 80.0078125 has the mean
  80.00390625, above 80, and is not listed.
\<close>

theorem high_cpu_servers_compares_rounded_mean:
  "fst (compute_server_kpis exact_lib
         (loaded_state [] [example_metric ''srv-01'' 80 40,
                           example_metric ''srv-01'' (10241 / 128) 40]))
     = Inr (server_kpis_of exact_lib [example_metric ''srv-01'' 80 40,
                                      example_metric ''srv-01'' (10241 / 128) 40])
   \<and> high_cpu_servers (server_kpis_of exact_lib
        [example_metric ''srv-01'' 80 40, example_metric ''srv-01'' (10241 / 128) 40]) = []
   \<and> group_mean exact_lib (map cpu_usage_percent (group_rows m_server_id
        [example_metric ''srv-01'' 80 40, example_metric ''srv-01'' (10241 / 128) 40]
        ''srv-01'')) = 20481 / 256
   \<and> (80 :: real) < 20481 / 256"
proof -
  let ?df = "[example_metric ''srv-01'' 80 40, example_metric ''srv-01'' (10241 / 128) 40]"
  have m: "group_mean exact_lib (map cpu_usage_percent (group_rows m_server_id ?df ''srv-01''))
      = 20481 / 256"
    by (simp add: exact_lib_def avg_def group_rows_def example_metric_def)
  have r: "np_round (20481 / 256) 2 \<le> 80" by (rule np_round_le_80) simp
  have ids: "m_server_id ` set ?df = {''srv-01''}" by (simp add: example_metric_def)
  have "set (high_cpu_servers (server_kpis_of exact_lib ?df)) = {}"
    unfolding high_cpu_set ids using r by (simp add: m)
  then have "high_cpu_servers (server_kpis_of exact_lib ?df) = []" by simp
  moreover have "fst (compute_server_kpis exact_lib (loaded_state [] ?df))
      = Inr (server_kpis_of exact_lib ?df)"
    using loaded_state_loaded(2) by (rule compute_server_kpis_loaded(1))
  ultimately show ?thesis using m by simp
qed

text \<open>
  C4, amended. For loaded, non-empty server metrics, \<open>high_cpu_servers\<close> is the list of
  the servers whose row of the \<open>server_utilization\<close> table has a CPU value above 80, that
  is, the servers whose mean CPU usage, as the library computes it and rounded to two
  decimals, is strictly above 80; each server occurs once. Every listed server has a
  computed mean above 80.005, so a server whose mean is 80 (or at most 80.005) is not
  listed. The same holds for \<open>high_memory_servers\<close> and the memory usage.
\<close>

theorem high_utilization_servers:
  assumes "server_metrics_loaded s df" and "df \<noteq> []"
  shows "\<exists>k. fst (compute_server_kpis lib s) = Inr k
     \<and> high_cpu_servers k
         = map fst (filter (\<lambda>(sid, u). 80 < util_cpu_usage_percent u) (server_utilization k))
     \<and> high_memory_servers k
         = map fst (filter (\<lambda>(sid, u). 80 < util_memory_usage_percent u) (server_utilization k))
     \<and> set (high_cpu_servers k)
         = {sid \<in> m_server_id ` set df.
              80 < np_round (group_mean lib
                     (map cpu_usage_percent (group_rows m_server_id df sid))) 2}
     \<and> set (high_memory_servers k)
         = {sid \<in> m_server_id ` set df.
              80 < np_round (group_mean lib
                     (map memory_usage_percent (group_rows m_server_id df sid))) 2}
     \<and> (\<forall>sid\<in>set (high_cpu_servers k).
           80005 / 1000 < group_mean lib (map cpu_usage_percent (group_rows m_server_id df sid)))
     \<and> (\<forall>sid\<in>set (high_memory_servers k).
           80005 / 1000
             < group_mean lib (map memory_usage_percent (group_rows m_server_id df sid)))
     \<and> distinct (high_cpu_servers k) \<and> distinct (high_memory_servers k)"
proof -
  have k: "fst (compute_server_kpis lib s) = Inr (server_kpis_of lib df)"
    using assms(1) by (rule compute_server_kpis_loaded(1))
  have t: "high_cpu_servers (server_kpis_of lib df)
         = map fst (filter (\<lambda>(sid, u). 80 < util_cpu_usage_percent u)
                      (server_utilization (server_kpis_of lib df)))"
      "high_memory_servers (server_kpis_of lib df)
         = map fst (filter (\<lambda>(sid, u). 80 < util_memory_usage_percent u)
                      (server_utilization (server_kpis_of lib df)))"
    by (simp_all add: server_kpis_of_def)
  have c: "\<forall>sid\<in>set (high_cpu_servers (server_kpis_of lib df)).
           80005 / 1000 < group_mean lib (map cpu_usage_percent (group_rows m_server_id df sid))"
    unfolding high_cpu_set using np_round_gt_80 by blast
  have m: "\<forall>sid\<in>set (high_memory_servers (server_kpis_of lib df)).
           80005 / 1000
             < group_mean lib (map memory_usage_percent (group_rows m_server_id df sid))"
    unfolding high_memory_set using np_round_gt_80 by blast
  show ?thesis
    unfolding k using t c m high_cpu_set [of lib df] high_memory_set [of lib df]
      distinct_high_cpu [of lib df] distinct_high_memory [of lib df]
    by blast
qed

theorem high_utilization_servers_witness:
  "\<exists>k. fst (compute_server_kpis exact_lib (loaded_state []
           [example_metric ''srv-01'' 92 40, example_metric ''srv-02'' 80 85,
            example_metric ''srv-01'' 90 40])) = Inr k
     \<and> set (high_cpu_servers k) = {''srv-01''}
     \<and> set (high_memory_servers k) = {''srv-02''}"
proof -
  let ?df = "[example_metric ''srv-01'' 92 40, example_metric ''srv-02'' 80 85,
              example_metric ''srv-01'' 90 40]"
  have cpu: "{sid \<in> m_server_id ` set ?df.
               80 < np_round (group_mean exact_lib
                      (map cpu_usage_percent (group_rows m_server_id ?df sid))) 2}
             = {''srv-01''}"
    by (auto simp: example_metric_def group_rows_def avg_def exact_lib_def
        np_round_91 np_round_80)
  have mem: "{sid \<in> m_server_id ` set ?df.
               80 < np_round (group_mean exact_lib
                      (map memory_usage_percent (group_rows m_server_id ?df sid))) 2}
             = {''srv-02''}"
    by (auto simp: example_metric_def group_rows_def avg_def exact_lib_def
        np_round_85 np_round_40)
  have ne: "?df \<noteq> []" by simp
  from high_utilization_servers [of "loaded_state [] ?df" ?df exact_lib,
      OF loaded_state_loaded(2) ne]
  obtain k where "fst (compute_server_kpis exact_lib (loaded_state [] ?df)) = Inr k"
    and "set (high_cpu_servers k) = {sid \<in> m_server_id ` set ?df.
               80 < np_round (group_mean exact_lib
                      (map cpu_usage_percent (group_rows m_server_id ?df sid))) 2}"
    and "set (high_memory_servers k) = {sid \<in> m_server_id ` set ?df.
               80 < np_round (group_mean exact_lib
                      (map memory_usage_percent (group_rows m_server_id ?df sid))) 2}"
    by blast
  then show ?thesis unfolding cpu mem by blast
qed

subsection \<open>The count returned by a batch insert\<close>

text \<open>
  C2 (the code departs from the claim). Two records, batch size 1, three attempts; the
  second statement of the first connection is rejected, the second connection works.
  The first attempt has counted its first batch when it fails, and the counter is not
  reset for the second attempt: the call returns 3 although the table received the 2
  records of the input.
\<close>

theorem batch_insert_counts_failed_attempt:
  "fst (insert_request_logs \<lparr>batch_size = 1, retry_attempts = 3\<rparr>
          [example_log 0, example_log 1] (example_world [ExecuteFails 1 ''deadlock''])) = Inr 3
   \<and> length (request_logs_rows (snd (insert_request_logs \<lparr>batch_size = 1, retry_attempts = 3\<rparr>
          [example_log 0, example_log 1] (example_world [ExecuteFails 1 ''deadlock''])))) = 2"
  by code_simp

subsection \<open>A store that keeps failing\<close>

lemma concat_batches: "0 < n \<Longrightarrow> concat (batches n xs) = xs"
proof (induction n xs rule: batches.induct)
  case (1 n xs)
  show ?case
  proof (cases "xs = []")
    case True
    then show ?thesis by (subst batches.simps) simp
  next
    case False
    with 1 have "concat (batches n (drop n xs)) = drop n xs" by simp
    with False 1(2) show ?thesis by (subst batches.simps) simp
  qed
qed

lemma set_batches: "b \<in> set (batches n xs) \<Longrightarrow> set b \<subseteq> set xs"
proof (induction n xs rule: batches.induct)
  case (1 n xs)
  show ?case
  proof (cases "n = 0 \<or> xs = []")
    case True
    with 1(2) show ?thesis by (subst (asm) batches.simps) simp
  next
    case False
    with 1(2) have "b = take n xs \<or> b \<in> set (batches n (drop n xs))"
      by (subst (asm) batches.simps) auto
    then show ?thesis
    proof
      assume "b = take n xs"
      then show ?thesis by (auto dest: in_set_takeD)
    next
      assume "b \<in> set (batches n (drop n xs))"
      with 1(1) False have "set b \<subseteq> set (drop n xs)" by simp
      then show ?thesis by (auto dest: in_set_dropD)
    qed
  qed
qed

text \<open>One batch of well-formed records: it raises the driver's error when the rejected
  statement falls into it, and otherwise inserts every record.\<close>

lemma insert_batch_outcome:
  assumes "\<forall>r\<in>set batch. \<exists>row_data. row_preparer r = Inr row_data"
  shows "(hits f (length pending) (length pending + length batch) \<longrightarrow>
            insert_batch row_preparer f batch pending = Inl (DbError (fault_message f)))
       \<and> (\<not> hits f (length pending) (length pending + length batch) \<longrightarrow>
            (\<exists>p. insert_batch row_preparer f batch pending = Inr p
                 \<and> length p = length pending + length batch))"
  using assms
proof (induction batch arbitrary: pending)
  case Nil
  then show ?case by (simp add: hits_def split: fault.splits)
next
  case (Cons r rest)
  then obtain row_data where rd: "row_preparer r = Inr row_data" by auto
  have ih: "(hits f (length p) (length p + length rest) \<longrightarrow>
            insert_batch row_preparer f rest p = Inl (DbError (fault_message f)))
       \<and> (\<not> hits f (length p) (length p + length rest) \<longrightarrow>
            (\<exists>q. insert_batch row_preparer f rest p = Inr q
                 \<and> length q = length p + length rest))" for p
    using Cons by auto
  show ?case
  proof (cases "execute f pending row_data")
    case (Inl e)
    then show ?thesis using rd
      by (auto simp: execute_def hits_def fault_message_def split: fault.splits if_splits)
  next
    case (Inr p)
    then have p: "p = pending @ [row_data]" "\<not> hits f (length pending) (Suc (length pending))"
      by (auto simp: execute_def hits_def split: fault.splits if_splits)
    have "hits f (length pending) (length pending + length (r # rest))
            \<longleftrightarrow> hits f (length p) (length p + length rest)"
      using p by (auto simp: hits_def split: fault.splits)
    then show ?thesis using rd Inr ih [of p] p(1) by simp
  qed
qed

lemma insert_batches_outcome:
  assumes "\<forall>b\<in>set bs. \<forall>r\<in>set b. \<exists>row_data. row_preparer r = Inr row_data"
  shows "(hits f (length pending) (length pending + length (concat bs)) \<longrightarrow>
            fst (insert_batches row_preparer f bs pending tot)
              = Inl (DbError (fault_message f)))
       \<and> (\<not> hits f (length pending) (length pending + length (concat bs)) \<longrightarrow>
            (\<exists>p. fst (insert_batches row_preparer f bs pending tot) = Inr p))"
  using assms
proof (induction bs arbitrary: pending tot)
  case Nil
  then show ?case by (simp add: hits_def split: fault.splits)
next
  case (Cons b rest)
  have okb: "\<forall>r\<in>set b. \<exists>row_data. row_preparer r = Inr row_data" using Cons.prems by simp
  note ib = insert_batch_outcome [OF okb, of f pending]
  show ?case
  proof (cases "hits f (length pending) (length pending + length b)")
    case True
    then have "hits f (length pending) (length pending + length (concat (b # rest)))"
      by (auto simp: hits_def split: fault.splits)
    then show ?thesis using ib True by simp
  next
    case False
    with ib obtain p where p: "insert_batch row_preparer f b pending = Inr p"
        "length p = length pending + length b" by auto
    have "hits f (length pending) (length pending + length (concat (b # rest)))
            \<longleftrightarrow> hits f (length p) (length p + length (concat rest))"
      using False p(2) by (auto simp: hits_def split: fault.splits)
    then show ?thesis
      using p(1) Cons.IH [of p "tot + int (length b)"] Cons.prems by simp
  qed
qed

text \<open>Whether the loop over the batches raises, and what, does not depend on the
  counter it carries.\<close>

lemma insert_batches_fst_total:
  "fst (insert_batches row_preparer f bs pending t1)
     = fst (insert_batches row_preparer f bs pending t2)"
proof (induction bs arbitrary: pending t1 t2)
  case Nil
  show ?case by simp
next
  case (Cons b rest)
  show ?case
  proof (cases "insert_batch row_preparer f b pending")
    case (Inl e)
    then show ?thesis by simp
  next
    case (Inr p)
    then show ?thesis
      using Cons.IH [of p "t1 + int (length b)" "t2 + int (length b)"] by simp
  qed
qed

lemma connect_next_fault:
  "connect w = (next_fault w, w\<lparr>faults := tl (faults w), connects := connects w + 1\<rparr>)"
  by (cases "faults w") (simp_all add: connect_def next_fault_def nth_fault_def)

text \<open>An attempt that ends with an error ends with the error that depends on the
  fault of its connection only; it uses up one fault of the script and leaves the
  tables alone.\<close>

lemma attempt_body_failure:
  assumes "attempt_error self row_preparer records (next_fault w) = Some e"
  shows "\<exists>t. attempt_body self tbl row_preparer records tot w
           = (Inl e, t, w\<lparr>faults := tl (faults w), connects := connects w + 1\<rparr>)"
proof -
  let ?f = "next_fault w"
  let ?bs = "if batch_size self < 0 then [] else batches (nat (batch_size self)) records"
  let ?w0 = "\<lparr> request_logs_rows = [], server_metrics_rows = [],
               analytics_reports_rows = [], faults = [?f], connects = 0, sleeps = [] \<rparr>"
  have c0: "connect \<lparr> request_logs_rows = [], server_metrics_rows = [],
               analytics_reports_rows = [], faults = [f], connects = 0, sleeps = [] \<rparr>
      = (f, \<lparr> request_logs_rows = [], server_metrics_rows = [],
               analytics_reports_rows = [], faults = [], connects = 1, sleeps = [] \<rparr>)" for f
    by (simp add: connect_def)
  note c = connect_next_fault [of w]
  obtain r0 t0 where i0: "insert_batches row_preparer ?f ?bs [] 0 = (r0, t0)"
    by (cases "insert_batches row_preparer ?f ?bs [] 0")
  obtain r1 t1 where i1: "insert_batches row_preparer ?f ?bs [] tot = (r1, t1)"
    by (cases "insert_batches row_preparer ?f ?bs [] tot")
  have r: "r1 = r0"
    using insert_batches_fst_total [of row_preparer ?f ?bs "[]" tot 0] i0 i1 by simp
  show ?thesis
  proof (cases "next_fault w")
    case NoFault
    show ?thesis
      using assms i0 i1 r unfolding attempt_error_def attempt_body_def c c0 NoFault
      by (cases r0) (auto split: if_splits)
  next
    case (ConnectFails msg)
    show ?thesis
      using assms unfolding attempt_error_def attempt_body_def c c0 ConnectFails
      by auto
  next
    case (ExecuteFails k msg)
    show ?thesis
      using assms i0 i1 r unfolding attempt_error_def attempt_body_def c c0 ExecuteFails
      by (cases r0) (auto split: if_splits)
  next
    case (CommitFails msg)
    show ?thesis
      using assms i0 i1 r unfolding attempt_error_def attempt_body_def c c0 CommitFails
      by (cases r0) (auto split: if_splits)
  qed
qed

lemma nth_fault_tl:
  "nth_fault (w\<lparr>faults := tl (faults w), connects := c, sleeps := sl\<rparr>) i = nth_fault w (Suc i)"
  by (cases "faults w") (simp_all add: nth_fault_def)

text \<open>The loop from attempt \<open>a\<close> on, when every remaining attempt ends with an error:
  by induction on the number of attempts left.\<close>

lemma retry_loop_all_fail:
  "a < n \<Longrightarrow> int n = retry_attempts self
     \<Longrightarrow> \<forall>i<n - a. attempt_error self row_preparer records (nth_fault w i) \<noteq> None
     \<Longrightarrow> \<exists>e w'. retry_loop self tbl row_preparer records (map int [a..<n]) tot w = (Inl e, w')
           \<and> attempt_error self row_preparer records (nth_fault w (n - a - 1)) = Some e
           \<and> connects w' = connects w + (n - a)
           \<and> sleeps w' = sleeps w @ map (\<lambda>i. 2 ^ i) [a..<n - 1]
           \<and> faults w' = drop (n - a) (faults w)
           \<and> request_logs_rows w' = request_logs_rows w
           \<and> server_metrics_rows w' = server_metrics_rows w
           \<and> analytics_reports_rows w' = analytics_reports_rows w"
proof (induction "n - a" arbitrary: a w tot)
  case 0
  then show ?case by simp
next
  case (Suc d)
  have nd: "n - a = Suc d" using Suc.hyps(2) by simp
  have "attempt_error self row_preparer records (nth_fault w 0) \<noteq> None"
    using Suc.prems(3) nd by simp
  then obtain e where e: "attempt_error self row_preparer records (next_fault w) = Some e"
    by (auto simp: next_fault_def)
  let ?w1 = "w\<lparr>faults := tl (faults w), connects := connects w + 1\<rparr>"
  obtain t where ab: "attempt_body self tbl row_preparer records tot w = (Inl e, t, ?w1)"
    using attempt_body_failure [OF e] by blast
  have upt: "[a..<n] = a # [Suc a..<n]" using Suc.prems(1) by (simp add: upt_conv_Cons)
  show ?case
  proof (cases "Suc a = n")
    case True
    then have last: "int a = retry_attempts self - 1" using Suc.prems(2) by simp
    have d: "n - a = 1" using True by simp
    have "retry_loop self tbl row_preparer records (map int [a..<n]) tot w = (Inl e, ?w1)"
      unfolding upt using last ab by simp
    moreover have "attempt_error self row_preparer records (nth_fault w (n - a - 1)) = Some e"
      using e d by (simp add: next_fault_def)
    moreover have "faults ?w1 = drop (n - a) (faults w)" using d by (simp add: drop_Suc)
    moreover have "sleeps ?w1 = sleeps w @ map (\<lambda>i. 2 ^ i) [a..<n - 1]" using True by auto
    ultimately show ?thesis using d by simp
  next
    case False
    then have notlast: "int a \<noteq> retry_attempts self - 1" using Suc.prems(2) by linarith
    let ?w = "w\<lparr>faults := tl (faults w), connects := connects w + 1,
                 sleeps := sleeps w @ [2 ^ a]\<rparr>"
    have step: "retry_loop self tbl row_preparer records (map int [a..<n]) tot w
        = retry_loop self tbl row_preparer records (map int [Suc a..<n]) t ?w"
      unfolding upt using ab notlast by simp
    have d: "d = n - Suc a" using Suc.hyps(2) by simp
    have lt: "Suc a < n" using False Suc.prems(1) by simp
    have nf: "nth_fault ?w i = nth_fault w (Suc i)" for i by (rule nth_fault_tl)
    have all: "\<forall>i<n - Suc a. attempt_error self row_preparer records (nth_fault ?w i) \<noteq> None"
      unfolding nf using Suc.prems(3) lt by auto
    from Suc.hyps(1) [OF d lt Suc.prems(2) all, of t]
    obtain e' w' where ih:
      "retry_loop self tbl row_preparer records (map int [Suc a..<n]) t ?w = (Inl e', w')"
      "attempt_error self row_preparer records (nth_fault ?w (n - Suc a - 1)) = Some e'"
      "connects w' = connects ?w + (n - Suc a)"
      "sleeps w' = sleeps ?w @ map (\<lambda>i. 2 ^ i) [Suc a..<n - 1]"
      "faults w' = drop (n - Suc a) (faults ?w)"
      "request_logs_rows w' = request_logs_rows ?w"
      "server_metrics_rows w' = server_metrics_rows ?w"
      "analytics_reports_rows w' = analytics_reports_rows ?w"
      by blast
    have idx: "Suc (n - Suc a - 1) = n - a - 1" using lt by simp
    have e': "attempt_error self row_preparer records (nth_fault w (n - a - 1)) = Some e'"
      using ih(2) unfolding nf idx .
    have sl: "sleeps w' = sleeps w @ map (\<lambda>i. 2 ^ i) [a..<n - 1]"
      using ih(4) lt by (simp add: upt_conv_Cons)
    have dr: "faults w' = drop (n - a) (faults w)"
    proof -
      have "n - a = Suc (n - Suc a)" using lt by simp
      then show ?thesis using ih(5) by (simp add: drop_Suc)
    qed
    have cn: "connects w' = connects w + (n - a)" using ih(3) lt by simp
    show ?thesis unfolding step using ih(1) e' sl dr cn ih(6,7,8) by simp
  qed
qed

text \<open>For records the row preparer accepts and a positive batch size, an attempt ends
  with an error exactly on a connection that rejects the write, and the error is the
  driver's.\<close>

lemma attempt_error_well_formed:
  assumes bs: "0 < batch_size self"
    and ok: "\<forall>r\<in>set records. \<exists>row_data. row_preparer r = Inr row_data"
  shows "attempt_error self row_preparer records f
           = (if store_rejects f (length records) then Some (DbError (fault_message f))
              else None)"
proof -
  let ?bs = "batches (nat (batch_size self)) records"
  let ?w0 = "\<lparr> request_logs_rows = [], server_metrics_rows = [],
               analytics_reports_rows = [], faults = [f], connects = 0, sleeps = [] \<rparr>"
  have c0: "connect ?w0 = (f, ?w0\<lparr>faults := [], connects := 1\<rparr>)"
    by (simp add: connect_def)
  have okb: "\<forall>b\<in>set ?bs. \<forall>r\<in>set b. \<exists>row_data. row_preparer r = Inr row_data"
    using ok set_batches by blast
  have len: "length (concat ?bs) = length records" using bs by (simp add: concat_batches)
  note ibs = insert_batches_outcome [OF okb, of f "[]" 0]
  obtain r0 t0 where i0: "insert_batches row_preparer f ?bs [] 0 = (r0, t0)"
    by (cases "insert_batches row_preparer f ?bs [] 0")
  show ?thesis
  proof (cases f)
    case NoFault
    then have "\<not> hits f 0 (length records)" by (simp add: hits_def)
    with ibs len i0 obtain p where "r0 = Inr p" by auto
    then show ?thesis using bs NoFault i0 unfolding attempt_error_def attempt_body_def c0
      by (simp add: store_rejects_def)
  next
    case (ConnectFails msg)
    then show ?thesis unfolding attempt_error_def attempt_body_def c0
      by (simp add: store_rejects_def fault_message_def)
  next
    case (ExecuteFails k msg)
    show ?thesis
    proof (cases "k < length records")
      case True
      then have "hits f 0 (length records)" using ExecuteFails by (simp add: hits_def)
      with ibs len i0 have "r0 = Inl (DbError (fault_message f))" by simp
      then show ?thesis using bs ExecuteFails True i0
        unfolding attempt_error_def attempt_body_def c0
        by (simp add: store_rejects_def)
    next
      case False
      then have "\<not> hits f 0 (length records)" using ExecuteFails by (simp add: hits_def)
      with ibs len i0 obtain p where "r0 = Inr p" by auto
      then show ?thesis using bs ExecuteFails False i0
        unfolding attempt_error_def attempt_body_def c0
        by (simp add: store_rejects_def)
    qed
  next
    case (CommitFails msg)
    then have "\<not> hits f 0 (length records)" by (simp add: hits_def)
    with ibs len i0 obtain p where "r0 = Inr p" by auto
    then show ?thesis using bs CommitFails i0 unfolding attempt_error_def attempt_body_def c0
      by (simp add: store_rejects_def fault_message_def)
  qed
qed

lemma attempt_error_connect_fails:
  "attempt_error self row_preparer records (ConnectFails msg) = Some (DbError msg)"
  by (simp add: attempt_error_def attempt_body_def connect_def)

lemma delays_increasing: "sorted_wrt (<) (map (\<lambda>attempt. (2::nat) ^ attempt) [0..<k])"
  by (simp add: sorted_wrt_map sorted_wrt_iff_nth_less)

text \<open>
  C3, as stated, fails when \<open>retry_attempts\<close> is 0 (or negative): the loop body never
  runs, no attempt is made, and the call returns 0 instead of raising, although the
  store would have refused the connection.
\<close>

theorem batch_insert_zero_attempts:
  "batch_insert \<lparr>batch_size = 1000, retry_attempts = 0\<rparr> RequestLogs [example_log 0]
     prepare_request_log_row (example_world [ConnectFails ''down''])
   = (Inr 0, example_world [ConnectFails ''down''])"
  by (simp add: batch_insert_def py_range_def)

text \<open>
  C3, amended. With \<open>retry_attempts \<le> 0\<close> a batch insert makes no attempt and returns
  0, whatever the store would do. With \<open>retry_attempts \<ge> 1\<close>, if each of the next
  \<open>retry_attempts\<close> attempts ends with an error, the call opens exactly
  \<open>retry_attempts\<close> connections, sleeps \<open>2 ^ attempt\<close> after each attempt but the last
  (delays 1, 2, 4, ..., strictly increasing), raises the error of the last attempt and
  leaves the three tables as they were. An attempt ends with an error whenever the
  connection cannot be opened; for a positive batch size and records the row preparer
  accepts, it ends with an error exactly when the connection rejects one of the
  statements of the write or the commit, and the error is the driver's.
\<close>

theorem batch_insert_permanent_failure:
  "(retry_attempts self \<le> 0 \<longrightarrow>
      batch_insert self tbl records row_preparer w = (Inr 0, w))
   \<and> (0 < retry_attempts self
        \<and> (\<forall>i<nat (retry_attempts self).
              attempt_error self row_preparer records (nth_fault w i) \<noteq> None) \<longrightarrow>
      (\<exists>e w'. batch_insert self tbl records row_preparer w = (Inl e, w')
         \<and> attempt_error self row_preparer records
               (nth_fault w (nat (retry_attempts self) - 1)) = Some e
         \<and> connects w' = connects w + nat (retry_attempts self)
         \<and> sleeps w' = sleeps w @ map (\<lambda>attempt. 2 ^ attempt) [0..<nat (retry_attempts self) - 1]
         \<and> sorted_wrt (<) (map (\<lambda>attempt. (2::nat) ^ attempt) [0..<nat (retry_attempts self) - 1])
         \<and> faults w' = drop (nat (retry_attempts self)) (faults w)
         \<and> request_logs_rows w' = request_logs_rows w
         \<and> server_metrics_rows w' = server_metrics_rows w
         \<and> analytics_reports_rows w' = analytics_reports_rows w))
   \<and> (\<forall>msg. attempt_error self row_preparer records (ConnectFails msg) = Some (DbError msg))
   \<and> (0 < batch_size self \<and> (\<forall>r\<in>set records. \<exists>row_data. row_preparer r = Inr row_data) \<longrightarrow>
      (\<forall>f. attempt_error self row_preparer records f
             = (if store_rejects f (length records) then Some (DbError (fault_message f))
                else None)))"
proof -
  have z: "retry_attempts self \<le> 0 \<longrightarrow>
      batch_insert self tbl records row_preparer w = (Inr 0, w)"
    by (simp add: batch_insert_def py_range_def)
  have p: "0 < retry_attempts self
        \<and> (\<forall>i<nat (retry_attempts self).
              attempt_error self row_preparer records (nth_fault w i) \<noteq> None) \<longrightarrow>
      (\<exists>e w'. batch_insert self tbl records row_preparer w = (Inl e, w')
         \<and> attempt_error self row_preparer records
               (nth_fault w (nat (retry_attempts self) - 1)) = Some e
         \<and> connects w' = connects w + nat (retry_attempts self)
         \<and> sleeps w' = sleeps w @ map (\<lambda>attempt. 2 ^ attempt) [0..<nat (retry_attempts self) - 1]
         \<and> sorted_wrt (<) (map (\<lambda>attempt. (2::nat) ^ attempt) [0..<nat (retry_attempts self) - 1])
         \<and> faults w' = drop (nat (retry_attempts self)) (faults w)
         \<and> request_logs_rows w' = request_logs_rows w
         \<and> server_metrics_rows w' = server_metrics_rows w
         \<and> analytics_reports_rows w' = analytics_reports_rows w)"
  proof
    assume h: "0 < retry_attempts self
        \<and> (\<forall>i<nat (retry_attempts self).
              attempt_error self row_preparer records (nth_fault w i) \<noteq> None)"
    define n where "n = nat (retry_attempts self)"
    have n: "0 < n" "int n = retry_attempts self" using h by (simp_all add: n_def)
    have all: "\<forall>i<n - 0. attempt_error self row_preparer records (nth_fault w i) \<noteq> None"
      using h by (simp add: n_def)
    note r = retry_loop_all_fail [OF n(1) n(2) all, of tbl 0]
    show "\<exists>e w'. batch_insert self tbl records row_preparer w = (Inl e, w')
         \<and> attempt_error self row_preparer records
               (nth_fault w (nat (retry_attempts self) - 1)) = Some e
         \<and> connects w' = connects w + nat (retry_attempts self)
         \<and> sleeps w' = sleeps w @ map (\<lambda>attempt. 2 ^ attempt) [0..<nat (retry_attempts self) - 1]
         \<and> sorted_wrt (<) (map (\<lambda>attempt. (2::nat) ^ attempt) [0..<nat (retry_attempts self) - 1])
         \<and> faults w' = drop (nat (retry_attempts self)) (faults w)
         \<and> request_logs_rows w' = request_logs_rows w
         \<and> server_metrics_rows w' = server_metrics_rows w
         \<and> analytics_reports_rows w' = analytics_reports_rows w"
      unfolding batch_insert_def py_range_def n_def [symmetric]
      using r delays_increasing [of "n - 1"] by simp
  qed
  have c: "\<forall>msg. attempt_error self row_preparer records (ConnectFails msg) = Some (DbError msg)"
    by (simp add: attempt_error_connect_fails)
  have wf: "0 < batch_size self \<and> (\<forall>r\<in>set records. \<exists>row_data. row_preparer r = Inr row_data) \<longrightarrow>
      (\<forall>f. attempt_error self row_preparer records f
             = (if store_rejects f (length records) then Some (DbError (fault_message f))
                else None))"
    using attempt_error_well_formed [of self records row_preparer] by blast
  show ?thesis using z p c wf by blast
qed

theorem batch_insert_permanent_failure_witness:
  "(\<exists>w'. batch_insert \<lparr>batch_size = 1000, retry_attempts = 3\<rparr> RequestLogs
          [example_log 0, example_log 1] prepare_request_log_row
          (example_world [ConnectFails ''down'', ExecuteFails 1 ''timeout'',
                          CommitFails ''log full'', NoFault])
        = (Inl (DbError ''log full''), w')
      \<and> connects w' = 3 \<and> sleeps w' = [1, 2] \<and> faults w' = [NoFault]
      \<and> request_logs_rows w' = [])
   \<and> batch_insert \<lparr>batch_size = 1000, retry_attempts = - 1\<rparr> ServerMetrics
          [example_log 0] prepare_server_metrics_row (example_world [CommitFails ''log full''])
        = (Inr 0, example_world [CommitFails ''log full''])"
proof -
  let ?self = "\<lparr>batch_size = 1000, retry_attempts = 3\<rparr>"
  let ?records = "[example_log 0, example_log 1]"
  let ?w = "example_world [ConnectFails ''down'', ExecuteFails 1 ''timeout'',
                           CommitFails ''log full'', NoFault]"
  note t = batch_insert_permanent_failure [of ?self RequestLogs ?records
      prepare_request_log_row ?w]
  have wf: "\<forall>r\<in>set ?records. \<exists>row_data. prepare_request_log_row r = Inr row_data"
    by (simp add: example_log_def prepare_request_log_row_def getitem_def)
  have ae: "attempt_error ?self prepare_request_log_row ?records f
      = (if store_rejects f (length ?records) then Some (DbError (fault_message f)) else None)"
    for f
    using t wf by simp
  have nf: "nth_fault ?w 0 = ConnectFails ''down''" "nth_fault ?w 1 = ExecuteFails 1 ''timeout''"
      "nth_fault ?w 2 = CommitFails ''log full''"
    by (simp_all add: nth_fault_def example_world_def)
  have "attempt_error ?self prepare_request_log_row ?records (nth_fault ?w i) \<noteq> None"
    if "i < 3" for i
  proof -
    from that have "i = 0 \<or> i = 1 \<or> i = 2" by arith
    then show ?thesis unfolding ae using nf by (auto simp: store_rejects_def)
  qed
  then have "\<forall>i<nat (retry_attempts ?self).
      attempt_error ?self prepare_request_log_row ?records (nth_fault ?w i) \<noteq> None"
    by simp
  with t obtain e w' where r:
      "batch_insert ?self RequestLogs ?records prepare_request_log_row ?w = (Inl e, w')"
      "attempt_error ?self prepare_request_log_row ?records
         (nth_fault ?w (nat (retry_attempts ?self) - 1)) = Some e"
      "connects w' = connects ?w + nat (retry_attempts ?self)"
      "sleeps w' = sleeps ?w @ map (\<lambda>attempt. 2 ^ attempt) [0..<nat (retry_attempts ?self) - 1]"
      "faults w' = drop (nat (retry_attempts ?self)) (faults ?w)"
      "request_logs_rows w' = request_logs_rows ?w"
    by auto
  have lst: "nth_fault ?w (nat (retry_attempts ?self) - 1) = CommitFails ''log full''"
    by (simp add: nth_fault_def example_world_def)
  have e: "e = DbError ''log full''"
    using r(2) unfolding ae lst by (simp add: store_rejects_def fault_message_def)
  have first: "\<exists>w'. batch_insert ?self RequestLogs ?records prepare_request_log_row ?w
        = (Inl (DbError ''log full''), w')
      \<and> connects w' = 3 \<and> sleeps w' = [1, 2] \<and> faults w' = [NoFault]
      \<and> request_logs_rows w' = []"
    using r(1,3,4,5,6) unfolding e by (simp add: example_world_def upt_rec)
  have second: "batch_insert \<lparr>batch_size = 1000, retry_attempts = - 1\<rparr> ServerMetrics
          [example_log 0] prepare_server_metrics_row (example_world [CommitFails ''log full''])
        = (Inr 0, example_world [CommitFails ''log full''])"
    using batch_insert_permanent_failure [of "\<lparr>batch_size = 1000, retry_attempts = - 1\<rparr>"
        ServerMetrics "[example_log 0]" prepare_server_metrics_row
        "example_world [CommitFails ''log full'']"]
    by simp
  show ?thesis using first second by blast
qed

subsection \<open>Storing a report\<close>

lemma record_count_of_claimed:
  "record_count_of d = Inr rc \<Longrightarrow> rc = claimed_record_count d"
  by (auto simp: record_count_of_def claimed_record_count_def get_default_def
      split: option.splits pyval.splits)

lemma record_count_of_is_dict:
  "(\<exists>rc. record_count_of d = Inr rc) \<longleftrightarrow> request_kpis_is_dict d"
  by (auto simp: record_count_of_def request_kpis_is_dict_def split: option.splits pyval.splits)

text \<open>
  C10. \<open>store_analytics_report\<close> always returns a boolean. It returns \<open>True\<close> exactly
  when the report's \<open>request_kpis\<close> entry, if there is one, is a dictionary and the
  connection lets the one insert statement through and commits it; then the table has
  one more row, whose record count is \<open>total_requests\<close> of the report's \<open>request_kpis\<close>
  if that key is present and 0 otherwise. When it returns \<open>False\<close> the table is as
  before. The other two tables are never touched, the call never sleeps, and it opens
  one connection, or none when the record count cannot be read.
\<close>

theorem store_analytics_report_outcome:
  "(fst (store_analytics_report self now report_data report_type processing_time_ms w)
      \<longleftrightarrow> request_kpis_is_dict report_data \<and> statement_commits (next_fault w))
   \<and> (fst (store_analytics_report self now report_data report_type processing_time_ms w) \<longrightarrow>
        analytics_reports_rows
          (snd (store_analytics_report self now report_data report_type processing_time_ms w))
        = analytics_reports_rows w @ [report_row now report_data report_type processing_time_ms])
   \<and> (\<not> fst (store_analytics_report self now report_data report_type processing_time_ms w) \<longrightarrow>
        analytics_reports_rows
          (snd (store_analytics_report self now report_data report_type processing_time_ms w))
        = analytics_reports_rows w)
   \<and> request_logs_rows
        (snd (store_analytics_report self now report_data report_type processing_time_ms w))
      = request_logs_rows w
   \<and> server_metrics_rows
        (snd (store_analytics_report self now report_data report_type processing_time_ms w))
      = server_metrics_rows w
   \<and> sleeps (snd (store_analytics_report self now report_data report_type processing_time_ms w))
      = sleeps w
   \<and> connects (snd (store_analytics_report self now report_data report_type processing_time_ms w))
      = (if request_kpis_is_dict report_data then connects w + 1 else connects w)"
proof (cases "record_count_of report_data")
  case (Inl e)
  then have "\<not> request_kpis_is_dict report_data"
    using record_count_of_is_dict [of report_data] by auto
  then show ?thesis using Inl by (simp add: store_analytics_report_def)
next
  case (Inr rc)
  then have rc: "rc = claimed_record_count report_data" by (rule record_count_of_claimed)
  have d: "request_kpis_is_dict report_data"
    using Inr record_count_of_is_dict [of report_data] by auto
  show ?thesis
    using Inr rc d
    by (cases "faults w"; cases "hd (faults w)")
       (auto simp: store_analytics_report_def connect_def execute_def commit_def next_fault_def
          nth_fault_def statement_commits_def report_row_def split: fault.splits)
qed

theorem store_analytics_report_outcome_witness:
  "store_analytics_report \<lparr>batch_size = 1000, retry_attempts = 3\<rparr> 1700
      [(''request_kpis'', PDict [(''total_requests'', PInt 2500)])] ''comprehensive'' None
      (example_world [])
     = (True, (example_world [])\<lparr>analytics_reports_rows :=
          [[PInt 1700, PStr ''comprehensive'',
            PDict [(''request_kpis'', PDict [(''total_requests'', PInt 2500)])], PNone,
            PInt 2500]], connects := 1\<rparr>)
   \<and> fst (store_analytics_report \<lparr>batch_size = 1000, retry_attempts = 3\<rparr> 1700
      [(''request_kpis'', PDict [(''error_rate_percent'', PFloat 2)])] ''summary'' (Some 12)
      (example_world []))
   \<and> analytics_reports_rows (snd (store_analytics_report \<lparr>batch_size = 1000, retry_attempts = 3\<rparr>
      1700 [(''request_kpis'', PDict [(''error_rate_percent'', PFloat 2)])] ''summary'' (Some 12)
      (example_world [])))
     = [[PInt 1700, PStr ''summary'',
         PDict [(''request_kpis'', PDict [(''error_rate_percent'', PFloat 2)])], PInt 12, PInt 0]]
   \<and> fst (store_analytics_report \<lparr>batch_size = 1000, retry_attempts = 3\<rparr> 1700
      [(''server_kpis'', PDict [])] ''summary'' None (example_world [ExecuteFails 1 ''late'']))
   \<and> analytics_reports_rows (snd (store_analytics_report \<lparr>batch_size = 1000, retry_attempts = 3\<rparr>
      1700 [(''server_kpis'', PDict [])] ''summary'' None (example_world [ExecuteFails 1 ''late''])))
     = [[PInt 1700, PStr ''summary'', PDict [(''server_kpis'', PDict [])], PNone, PInt 0]]
   \<and> store_analytics_report \<lparr>batch_size = 1000, retry_attempts = 3\<rparr> 1700
      [(''request_kpis'', PStr ''n/a'')] ''summary'' None (example_world [])
     = (False, example_world [])
   \<and> \<not> fst (store_analytics_report \<lparr>batch_size = 1000, retry_attempts = 3\<rparr> 1700
      [(''request_kpis'', PDict [(''total_requests'', PInt 2500)])] ''comprehensive'' None
      (example_world [CommitFails ''log full'']))
   \<and> analytics_reports_rows (snd (store_analytics_report \<lparr>batch_size = 1000, retry_attempts = 3\<rparr>
      1700 [(''request_kpis'', PDict [(''total_requests'', PInt 2500)])] ''comprehensive'' None
      (example_world [CommitFails ''log full''])))
     = []
   \<and> \<not> fst (store_analytics_report \<lparr>batch_size = 1000, retry_attempts = 3\<rparr> 1700
      [(''request_kpis'', PDict [(''total_requests'', PInt 2500)])] ''comprehensive'' None
      (example_world [ConnectFails ''down'']))
   \<and> \<not> fst (store_analytics_report \<lparr>batch_size = 1000, retry_attempts = 3\<rparr> 1700
      [(''request_kpis'', PDict [(''total_requests'', PInt 2500)])] ''comprehensive'' None
      (example_world [ExecuteFails 0 ''constraint'']))"
proof -
  let ?self = "\<lparr>batch_size = 1000, retry_attempts = 3\<rparr>"
  let ?full = "[(''request_kpis'', PDict [(''total_requests'', PInt 2500)])]"
  let ?part = "[(''request_kpis'', PDict [(''error_rate_percent'', PFloat 2)])]"
  let ?none = "[(''server_kpis'', PDict [])]"
  let ?bad = "[(''request_kpis'', PStr ''n/a'')]"
  note ev = example_world_def next_fault_def nth_fault_def statement_commits_def
    request_kpis_is_dict_def report_row_def claimed_record_count_def
  have 1: "fst (store_analytics_report ?self 1700 ?full ''comprehensive'' None (example_world []))"
      "analytics_reports_rows (snd (store_analytics_report ?self 1700 ?full ''comprehensive'' None
          (example_world [])))
        = [[PInt 1700, PStr ''comprehensive'', PDict ?full, PNone, PInt 2500]]"
    using store_analytics_report_outcome [of ?self 1700 ?full "''comprehensive''" None
        "example_world []"]
    by (simp_all add: ev)
  have 2: "fst (store_analytics_report ?self 1700 ?part ''summary'' (Some 12) (example_world []))"
      "analytics_reports_rows (snd (store_analytics_report ?self 1700 ?part ''summary'' (Some 12)
          (example_world [])))
        = [[PInt 1700, PStr ''summary'', PDict ?part, PInt 12, PInt 0]]"
    using store_analytics_report_outcome [of ?self 1700 ?part "''summary''" "Some 12"
        "example_world []"]
    by (simp_all add: ev)
  have 3: "fst (store_analytics_report ?self 1700 ?none ''summary'' None
          (example_world [ExecuteFails 1 ''late'']))"
      "analytics_reports_rows (snd (store_analytics_report ?self 1700 ?none ''summary'' None
          (example_world [ExecuteFails 1 ''late''])))
        = [[PInt 1700, PStr ''summary'', PDict ?none, PNone, PInt 0]]"
    using store_analytics_report_outcome [of ?self 1700 ?none "''summary''" None
        "example_world [ExecuteFails 1 ''late'']"]
    by (simp_all add: ev)
  have 5: "\<not> fst (store_analytics_report ?self 1700 ?full ''comprehensive'' None
          (example_world [CommitFails ''log full'']))"
      "analytics_reports_rows (snd (store_analytics_report ?self 1700 ?full ''comprehensive'' None
          (example_world [CommitFails ''log full''])))
        = []"
    using store_analytics_report_outcome [of ?self 1700 ?full "''comprehensive''" None
        "example_world [CommitFails ''log full'']"]
    by (simp_all add: ev)
  have 6: "\<not> fst (store_analytics_report ?self 1700 ?full ''comprehensive'' None
          (example_world [ConnectFails ''down'']))"
    using store_analytics_report_outcome [of ?self 1700 ?full "''comprehensive''" None
        "example_world [ConnectFails ''down'']"]
    by (simp add: ev)
  have 7: "\<not> fst (store_analytics_report ?self 1700 ?full ''comprehensive'' None
          (example_world [ExecuteFails 0 ''constraint'']))"
    using store_analytics_report_outcome [of ?self 1700 ?full "''comprehensive''" None
        "example_world [ExecuteFails 0 ''constraint'']"]
    by (simp add: ev)
  have 0: "store_analytics_report ?self 1700 ?full ''comprehensive'' None (example_world [])
     = (True, (example_world [])\<lparr>analytics_reports_rows :=
          [[PInt 1700, PStr ''comprehensive'', PDict ?full, PNone, PInt 2500]], connects := 1\<rparr>)"
    by (simp add: store_analytics_report_def record_count_of_def get_default_def connect_def
        execute_def commit_def example_world_def)
  have 4: "store_analytics_report ?self 1700 ?bad ''summary'' None (example_world [])
     = (False, example_world [])"
    by (simp add: store_analytics_report_def record_count_of_def)
  show ?thesis using 0 1 2 3 4 5 6 7 by blast
qed

end
